theory Spec2Isabelle
  imports Complex_Main "HOL-Library.Signed_Division" "HOL-Library.Sublist"
    "HOL-Library.AList" "HOL-Library.Monad_Syntax"
begin

section \<open>Data model (lib/captions/types.ts)\<close>

text \<open>
  A JavaScript \<^verbatim>\<open>Date\<close> is its time value: milliseconds since the epoch, or
  \<open>None\<close> for an Invalid Date (whose \<^verbatim>\<open>getTime()\<close> is NaN).  A JavaScript string is
  a \<open>string\<close>, one \<open>char\<close> per code unit, so the model covers the strings whose
  code units are below 256.  A number that the code only carries (a confidence) is a
  \<open>rat\<close>; a number it computes with is an integer count of milliseconds.
\<close>

type_synonym date = "int option"

record TranscriptEntry =
  entry_text :: string
  timestamp :: date
  startTime :: date
  endTime :: date
  confidence :: "rat option"
  isFinal :: bool
  speaker :: "string option"

section \<open>The transcript reconciler (hooks/useCaptions.ts, recognition.onresult)\<close>

text \<open>
  One element of \<^verbatim>\<open>event.results\<close>: the first alternative's transcript and
  confidence, and the result's \<^verbatim>\<open>isFinal\<close> flag.
\<close>

record SpeechResult =
  alt_transcript :: string
  alt_confidence :: rat
  result_isFinal :: bool

text \<open>
  The handler reads the clock with \<^verbatim>\<open>new Date()\<close> four times for each result
  that touches the transcript: for \<^verbatim>\<open>timestamp\<close>, for the fallback of
  \<^verbatim>\<open>startTime\<close>, for \<^verbatim>\<open>endTime\<close>, and in the state updater when the
  result is final.  The readings are inputs of the model.
\<close>

record ClockReads =
  at_timestamp :: int
  at_start :: int
  at_end :: int
  at_reset :: int

text \<open>
  The part of the hook's state the handler writes: the \<^verbatim>\<open>transcript\<close> state and
  \<^verbatim>\<open>beginTimeRef.current\<close> (\<open>None\<close> is \<^verbatim>\<open>null\<close>).
\<close>

record HookState =
  transcript :: "TranscriptEntry list"
  beginTimeRef :: "date option"

text \<open>The entry built at lines 99--107; a Date object is truthy, \<^verbatim>\<open>null\<close> is not.\<close>

definition make_entry :: "SpeechResult \<Rightarrow> ClockReads \<Rightarrow> date option \<Rightarrow> TranscriptEntry" where
  "make_entry result clock beginTime =
     \<lparr> entry_text = alt_transcript result,
       timestamp = Some (at_timestamp clock),
       startTime = (case beginTime of Some d \<Rightarrow> d | None \<Rightarrow> Some (at_start clock)),
       endTime = Some (at_end clock),
       confidence = Some (alt_confidence result),
       isFinal = result_isFinal result,
       speaker = Some ''User'' \<rparr>"

text \<open>
  The updater passed to \<^verbatim>\<open>setTranscript\<close> (lines 109--119), with both of its
  branches; the final branch also resets \<^verbatim>\<open>beginTimeRef.current\<close>.  React applies
  the updaters in the order they were queued, so the state after an event is the
  updaters applied one after the other.
\<close>

definition setTranscript_updater ::
    "bool \<Rightarrow> TranscriptEntry \<Rightarrow> ClockReads \<Rightarrow> HookState \<Rightarrow> HookState" where
  "setTranscript_updater final entry clock s =
     (if \<not> final then
        (let filtered = filter isFinal (transcript s)
         in s\<lparr>transcript := filtered @ [entry]\<rparr>)
      else
        (let filtered = filter isFinal (transcript s)
         in s\<lparr>transcript := filtered @ [entry], beginTimeRef := Some (Some (at_reset clock))\<rparr>))"

text \<open>
  One iteration of the loop over the results, as far as the transcript goes.  The
  iteration's other effect, saving the current session on a final result, reads and
  writes the session state and the store, not the transcript.
\<close>

definition reconcile :: "SpeechResult \<Rightarrow> ClockReads \<Rightarrow> HookState \<Rightarrow> HookState" where
  "reconcile result clock s =
     (let entry = make_entry result clock (beginTimeRef s)
      in setTranscript_updater (result_isFinal result) entry clock s)"

text \<open>
  A recognition event: the results list, the index of the first result that changed,
  and the clock readings of the iteration at each index.
\<close>

record RecognitionEvent =
  results :: "SpeechResult list"
  resultIndex :: nat
  clock_at :: "nat \<Rightarrow> ClockReads"

text \<open>The loop \<^verbatim>\<open>for (let i = currentIndex; i < results.length; i++)\<close>.\<close>

definition onresult :: "RecognitionEvent \<Rightarrow> HookState \<Rightarrow> HookState" where
  "onresult ev s =
     foldl (\<lambda>st i. reconcile (results ev ! i) (clock_at ev i) st) s
       [resultIndex ev ..< length (results ev)]"

text \<open>A sequence of results fed to the reconciler, one after the other.\<close>

definition reconcile_all :: "(SpeechResult \<times> ClockReads) list \<Rightarrow> HookState \<Rightarrow> HookState" where
  "reconcile_all rs s = foldl (\<lambda>st (r, c). reconcile r c st) s rs"

text \<open>\<^verbatim>\<open>startListening\<close> empties the transcript; the reference starts as \<^verbatim>\<open>null\<close>.\<close>

definition initial_state :: HookState where
  "initial_state = \<lparr> transcript = [], beginTimeRef = None \<rparr>"

definition interim_entries :: "TranscriptEntry list \<Rightarrow> TranscriptEntry list" where
  "interim_entries t = filter (\<lambda>e. \<not> isFinal e) t"

definition final_entries :: "TranscriptEntry list \<Rightarrow> TranscriptEntry list" where
  "final_entries t = filter isFinal t"

section \<open>JavaScript numbers and strings used by the formatters\<close>

text \<open>
  The formatters compute with time values and their differences.  A number is an
  integer or NaN (\<open>None\<close>), which is what \<^verbatim>\<open>getTime()\<close> returns.  The time
  value of a valid Date is an integer of at most 8640000000000000 in magnitude, exact
  as a double; the difference of two of them can exceed \<open>2 ^ 53\<close> and is then rounded
  to the nearest double.  On such a difference (below \<open>2 ^ 54\<close> in magnitude)
  \<^verbatim>\<open>Math.floor(a / k)\<close> for \<open>k\<close> = 1000 or 60, \<^verbatim>\<open>a % k\<close> and \<^verbatim>\<open>toString\<close>
  are exact: the double nearest to the quotient lies below the next integer, since the
  quotient is at least 0.001 away from it and the doubles there are less than 0.002
  apart.
\<close>

type_synonym number = "int option"

text \<open>The number of binary digits of a positive integer.\<close>

function bit_length :: "int \<Rightarrow> nat" where
  "bit_length n = (if n \<le> 0 then 0 else Suc (bit_length (n div 2)))"
  by pat_completeness auto
termination
  by (relation "measure nat") auto

declare bit_length.simps [simp del]

text \<open>
  The double nearest to an integer: the integer itself up to \<open>2 ^ 53\<close> in magnitude;
  beyond, the magnitude rounded to 53 significant binary digits, a tie going to the even
  significand.
\<close>

definition double_round :: "int \<Rightarrow> int" where
  "double_round x =
     (if \<bar>x\<bar> \<le> 9007199254740992 then x
      else
        (let q = 2 ^ (bit_length \<bar>x\<bar> - 53);
             m = \<bar>x\<bar> div q;
             r = \<bar>x\<bar> mod q;
             m' = (if 2 * r > q \<or> (2 * r = q \<and> odd m) then m + 1 else m)
         in sgn x * (m' * q)))"

definition getTime :: "date \<Rightarrow> number" where
  "getTime d = d"

definition num_sub :: "number \<Rightarrow> number \<Rightarrow> number" where
  "num_sub a b =
     (case (a, b) of (Some x, Some y) \<Rightarrow> Some (double_round (x - y)) | _ \<Rightarrow> None)"

text \<open>\<^verbatim>\<open>Math.floor(a / k)\<close> for the constants \<open>k\<close> = 1000 and \<open>k\<close> = 60.\<close>

definition floor_div :: "number \<Rightarrow> int \<Rightarrow> number" where
  "floor_div a k = map_option (\<lambda>x. x div k) a"

text \<open>\<^verbatim>\<open>a % k\<close>: the remainder takes the sign of the dividend.\<close>

definition js_rem :: "number \<Rightarrow> int \<Rightarrow> number" where
  "js_rem a k = map_option (\<lambda>x. x smod k) a"

definition digit_char :: "nat \<Rightarrow> char" where
  "digit_char n = ''0123456789'' ! n"

function show_nat :: "nat \<Rightarrow> string" where
  "show_nat n = (if n < 10 then [digit_char n] else show_nat (n div 10) @ [digit_char (n mod 10)])"
  by pat_completeness auto
termination
  by (relation "measure id") auto

declare show_nat.simps [simp del]

text \<open>\<^verbatim>\<open>Number.prototype.toString()\<close> on an integer or NaN.\<close>

definition num_toString :: "number \<Rightarrow> string" where
  "num_toString a =
     (case a of None \<Rightarrow> ''NaN''
      | Some x \<Rightarrow> (if x < 0 then ''-'' @ show_nat (nat (- x)) else show_nat (nat x)))"

text \<open>\<^verbatim>\<open>s.padStart(n, c)\<close> with a one-character pad string.\<close>

definition padStart :: "nat \<Rightarrow> char \<Rightarrow> string \<Rightarrow> string" where
  "padStart n c s = (if length s \<ge> n then s else replicate (n - length s) c @ s)"

definition newline :: string where
  "newline = [CHR 0x0A]"

section \<open>The transcript formatters (lib/captions/formatters.ts)\<close>

definition formatMillisecondsToTimecode :: "number \<Rightarrow> string \<Rightarrow> string" where
  "formatMillisecondsToTimecode ms separator =
     (let seconds = floor_div ms 1000;
          minutes = floor_div seconds 60;
          hours = floor_div minutes 60;
          displayHours = padStart 2 CHR ''0'' (num_toString hours);
          displayMinutes = padStart 2 CHR ''0'' (num_toString (js_rem minutes 60));
          displaySeconds = padStart 2 CHR ''0'' (num_toString (js_rem seconds 60));
          displayMs = padStart 3 CHR ''0'' (num_toString (js_rem ms 1000))
      in displayHours @ '':'' @ displayMinutes @ '':'' @ displaySeconds @ separator @ displayMs)"

definition formatTimecodeSRT :: "date \<Rightarrow> date \<Rightarrow> string" where
  "formatTimecodeSRT time start =
     (let elapsed = num_sub (getTime time) (getTime start)
      in formatMillisecondsToTimecode elapsed '','')"

definition formatTimecodeVTT :: "date \<Rightarrow> date \<Rightarrow> string" where
  "formatTimecodeVTT time start =
     (let elapsed = num_sub (getTime time) (getTime start)
      in formatMillisecondsToTimecode elapsed ''.'')"

text \<open>
  \<^verbatim>\<open>sessionStartTime || (transcript[0]?.startTime || new Date())\<close>: the optional
  argument is \<open>None\<close> when omitted, a Date is truthy even when invalid, and \<open>now\<close>
  is what \<^verbatim>\<open>new Date()\<close> reads.
\<close>

definition zero_point :: "TranscriptEntry list \<Rightarrow> date option \<Rightarrow> int \<Rightarrow> date" where
  "zero_point t sessionStartTime now =
     (case sessionStartTime of
        Some d \<Rightarrow> d
      | None \<Rightarrow> (case t of [] \<Rightarrow> Some now | e # _ \<Rightarrow> startTime e))"

text \<open>The \<^verbatim>\<open>forEach\<close> of \<^verbatim>\<open>formatAsSRT\<close> threads the output and the counter.\<close>

definition formatAsSRT :: "TranscriptEntry list \<Rightarrow> date option \<Rightarrow> int \<Rightarrow> string" where
  "formatAsSRT t sessionStartTime now =
     (let start = zero_point t sessionStartTime now
      in fst (foldl
           (\<lambda>(output, counter) entry.
              (output @ show_nat counter @ newline
                 @ formatTimecodeSRT (startTime entry) start @ '' --> ''
                 @ formatTimecodeSRT (endTime entry) start @ newline
                 @ entry_text entry @ newline @ newline,
               counter + 1))
           ([], 1) (filter isFinal t)))"

text \<open>The \<^verbatim>\<open>forEach\<close> of \<^verbatim>\<open>formatAsWebVTT\<close> receives each entry with its index.\<close>

definition formatAsWebVTT :: "TranscriptEntry list \<Rightarrow> date option \<Rightarrow> int \<Rightarrow> string" where
  "formatAsWebVTT t sessionStartTime now =
     (let start = zero_point t sessionStartTime now
      in foldl
           (\<lambda>output (index, entry).
              output @ show_nat (index + 1) @ newline
                 @ formatTimecodeVTT (startTime entry) start @ '' --> ''
                 @ formatTimecodeVTT (endTime entry) start @ newline
                 @ entry_text entry @ newline @ newline)
           (''WEBVTT'' @ newline @ newline) (enumerate 0 (filter isFinal t)))"

text \<open>
  \<^verbatim>\<open>formatAsText\<close>; \<^verbatim>\<open>toLocaleTimeString\<close> depends on the host's locale and
  time zone and is a parameter.  \<^verbatim>\<open>join\<close> puts the separator between the blocks.
\<close>

fun join :: "string \<Rightarrow> string list \<Rightarrow> string" where
  "join sep [] = []"
| "join sep [x] = x"
| "join sep (x # y # ys) = x @ sep @ join sep (y # ys)"

definition formatAsText :: "(date \<Rightarrow> string) \<Rightarrow> TranscriptEntry list \<Rightarrow> string" where
  "formatAsText toLocaleTimeString t =
     join (newline @ newline)
       (map (\<lambda>entry.
               (let time = toLocaleTimeString (timestamp entry);
                    spk = (case speaker entry of None \<Rightarrow> ''Unknown''
                           | Some n \<Rightarrow> (if n = [] then ''Unknown'' else n))
                in ''['' @ time @ ''] '' @ spk @ '': '' @ entry_text entry))
            (filter isFinal t))"

datatype format_kind = Text | SRT | WebVTT

definition formatTranscript ::
    "(date \<Rightarrow> string) \<Rightarrow> TranscriptEntry list \<Rightarrow> format_kind \<Rightarrow> date option \<Rightarrow> int \<Rightarrow> string" where
  "formatTranscript toLocaleTimeString t kind sessionStartTime now =
     (case kind of
        Text \<Rightarrow> formatAsText toLocaleTimeString t
      | SRT \<Rightarrow> formatAsSRT t sessionStartTime now
      | WebVTT \<Rightarrow> formatAsWebVTT t sessionStartTime now)"

text \<open>
  The cues of an SRT export in the words of the specification: the final entries in
  transcript order, numbered from 1; and the text of one cue.
\<close>

definition srt_cues :: "TranscriptEntry list \<Rightarrow> (nat \<times> TranscriptEntry) list" where
  "srt_cues t = zip [1 ..< Suc (length (filter isFinal t))] (filter isFinal t)"

definition srt_cue_text :: "date \<Rightarrow> nat \<times> TranscriptEntry \<Rightarrow> string" where
  "srt_cue_text start cue =
     show_nat (fst cue) @ newline
       @ formatTimecodeSRT (startTime (snd cue)) start @ '' --> ''
       @ formatTimecodeSRT (endTime (snd cue)) start @ newline
       @ entry_text (snd cue) @ newline @ newline"

text \<open>The elapsed time a timecode prints.\<close>

definition elapsed_ms :: "date \<Rightarrow> date \<Rightarrow> number" where
  "elapsed_ms time start = num_sub (getTime time) (getTime start)"

section \<open>The recognizer adapter (lib/captions/speechRecognition.ts, SpeechRecognitionService)\<close>

text \<open>
  What the service does to the outside: the calls it makes on the underlying recognizer
  and the callbacks it invokes, in order.
\<close>

datatype effect =
    RecognitionStart | RecognitionStop | RecognitionAbort
  | OnStart | OnEnd | OnStatusChange string | OnError string | OnResult TranscriptEntry
  | ConsoleLog string

text \<open>What a timer does when it fires: the two closures passed to \<^verbatim>\<open>setTimeout\<close>.\<close>

datatype timer_action = CallStart | EnableAutoRestartAndStart

text \<open>
  The fields of the service, the pending timers of the host (handle, delay in ms, action)
  and the trace of effects.  \<^verbatim>\<open>restartTimer\<close> holds a timer handle or \<^verbatim>\<open>null\<close>.
\<close>

record Service =
  isListening :: bool
  autoRestart :: bool
  restartTimer :: "nat option"
  service_startTime :: "date option"
  lang :: string
  timers :: "(nat \<times> nat \<times> timer_action) list"
  next_handle :: nat
  trace :: "effect list"

definition emit :: "effect \<Rightarrow> Service \<Rightarrow> Service" where
  "emit e s = s\<lparr>trace := trace s @ [e]\<rparr>"

text \<open>\<^verbatim>\<open>setTimeout(action, delay)\<close> returns a fresh handle.\<close>

definition setTimeout :: "timer_action \<Rightarrow> nat \<Rightarrow> Service \<Rightarrow> nat \<times> Service" where
  "setTimeout action delay s =
     (next_handle s,
      s\<lparr>timers := timers s @ [(next_handle s, delay, action)],
        next_handle := Suc (next_handle s)\<rparr>)"

definition clearTimeout :: "nat \<Rightarrow> Service \<Rightarrow> Service" where
  "clearTimeout h s = s\<lparr>timers := filter (\<lambda>(h', d, a). h' \<noteq> h) (timers s)\<rparr>"

text \<open>A freshly constructed service.\<close>

definition new_service :: "string \<Rightarrow> Service" where
  "new_service language =
     \<lparr> isListening = False, autoRestart = True, restartTimer = None,
       service_startTime = None, lang = language, timers = [], next_handle = 0, trace = [] \<rparr>"

text \<open>\<^verbatim>\<open>recognition.onstart\<close>; \<open>now\<close> is the clock.\<close>

definition onstart :: "int \<Rightarrow> Service \<Rightarrow> Service" where
  "onstart now s =
     emit (OnStatusChange ''listening'')
       (emit OnStart (s\<lparr>isListening := True, service_startTime := Some (Some now)\<rparr>))"

text \<open>
  \<^verbatim>\<open>recognition.onend\<close> (lines 66--77): the flag is cleared, the callbacks run, and
  then the restart is guarded by \<^verbatim>\<open>this.autoRestart && this.isListening\<close>.  The
  callbacks are the caller's; no method of the service they could call sets
  \<^verbatim>\<open>isListening\<close>, which only the recognizer's start event does.
\<close>

definition onend :: "Service \<Rightarrow> Service" where
  "onend s =
     (let s1 = s\<lparr>isListening := False\<rparr>;
          s2 = emit OnEnd s1;
          s3 = emit (OnStatusChange ''stopped'') s2
      in if autoRestart s3 \<and> isListening s3 then
           (let (h, s4) = setTimeout CallStart 1000 s3
            in s4\<lparr>restartTimer := Some h\<rparr>)
         else s3)"

text \<open>
  \<^verbatim>\<open>start()\<close>: a pending restart is cancelled, then the recognizer is started.  The
  recognizer may throw; an \<^verbatim>\<open>InvalidStateError\<close> is logged, anything else is thrown
  on (the second component).
\<close>

datatype start_outcome = Started | InvalidStateError | OtherError string

definition start :: "start_outcome \<Rightarrow> Service \<Rightarrow> Service \<times> string option" where
  "start outcome s =
     (let s1 = (case restartTimer s of
                  Some h \<Rightarrow> (clearTimeout h s)\<lparr>restartTimer := None\<rparr>
                | None \<Rightarrow> s);
          s2 = emit RecognitionStart s1
      in case outcome of
           Started \<Rightarrow> (s2, None)
         | InvalidStateError \<Rightarrow> (emit (ConsoleLog ''Recognition already started'') s2, None)
         | OtherError e \<Rightarrow> (s2, Some e))"

definition stop :: "Service \<Rightarrow> Service" where
  "stop s =
     (let s1 = s\<lparr>autoRestart := False\<rparr>;
          s2 = (case restartTimer s1 of
                  Some h \<Rightarrow> (clearTimeout h s1)\<lparr>restartTimer := None\<rparr>
                | None \<Rightarrow> s1)
      in emit RecognitionStop s2)"

definition abort :: "Service \<Rightarrow> Service" where
  "abort s =
     (let s1 = s\<lparr>autoRestart := False\<rparr>;
          s2 = (case restartTimer s1 of
                  Some h \<Rightarrow> (clearTimeout h s1)\<lparr>restartTimer := None\<rparr>
                | None \<Rightarrow> s1)
      in emit RecognitionAbort s2)"

definition setAutoRestart :: "bool \<Rightarrow> Service \<Rightarrow> Service" where
  "setAutoRestart enabled s = s\<lparr>autoRestart := enabled\<rparr>"

definition setLanguage :: "string \<Rightarrow> Service \<Rightarrow> Service" where
  "setLanguage language s =
     (let s1 = s\<lparr>lang := language\<rparr>
      in if isListening s1 then snd (setTimeout EnableAutoRestartAndStart 100 (stop s1))
         else s1)"

text \<open>\<^verbatim>\<open>recognition.onerror\<close>: the timers of the error path are not kept in a field.\<close>

definition onerror :: "string \<Rightarrow> Service \<Rightarrow> Service" where
  "onerror err s =
     (let s1 = emit (OnStatusChange ''error'') (emit (OnError err) s)
      in if err = ''no-speech'' then
           (if autoRestart s1 then snd (setTimeout CallStart 500 s1) else s1)
         else if err = ''audio-capture'' then emit (OnError ''Microphone not available'') s1
         else if err = ''not-allowed'' then emit (OnError ''Microphone permission denied'') s1
         else if err = ''network'' then
           (let s2 = emit (OnError ''Network error'') s1
            in if autoRestart s2 then snd (setTimeout CallStart 2000 s2) else s2)
         else if err = ''aborted'' then s1
         else emit (OnError (''Recognition error: '' @ err)) s1)"

text \<open>
  The events the service reacts to after it was built: calls of its methods and events of
  the recognizer.
\<close>

datatype service_event =
    CallStop | CallAbort | CallSetAutoRestart bool | CallSetLanguage string
  | CallStartMethod start_outcome
  | RecognizerStarted int | RecognizerEnded | RecognizerError string
  | TimerFired nat start_outcome

text \<open>A pending timer fires: it leaves the host's list and its closure runs.\<close>

definition fire_timer :: "nat \<Rightarrow> start_outcome \<Rightarrow> Service \<Rightarrow> Service" where
  "fire_timer h outcome s =
     (case filter (\<lambda>(h', d, a). h' = h) (timers s) of
        [] \<Rightarrow> s
      | (h', d, a) # _ \<Rightarrow>
          (let s1 = clearTimeout h s
           in case a of
                CallStart \<Rightarrow> fst (start outcome s1)
              | EnableAutoRestartAndStart \<Rightarrow> fst (start outcome (s1\<lparr>autoRestart := True\<rparr>))))"

fun service_step :: "service_event \<Rightarrow> Service \<Rightarrow> Service" where
  "service_step CallStop s = stop s"
| "service_step CallAbort s = abort s"
| "service_step (CallSetAutoRestart b) s = setAutoRestart b s"
| "service_step (CallSetLanguage l) s = setLanguage l s"
| "service_step (CallStartMethod outcome) s = fst (start outcome s)"
| "service_step (RecognizerStarted now) s = onstart now s"
| "service_step RecognizerEnded s = onend s"
| "service_step (RecognizerError e) s = onerror e s"
| "service_step (TimerFired h outcome) s = fire_timer h outcome s"

definition service_run :: "service_event list \<Rightarrow> Service \<Rightarrow> Service" where
  "service_run evs s = foldl (\<lambda>st ev. service_step ev st) s evs"

section \<open>Text post-processing (SpeechRecognitionService.processTranscript)\<close>

text \<open>
  The white space of \<^verbatim>\<open>trim\<close> and of \<^verbatim>\<open>\s\<close> (the same set), and the word
  characters that decide \<^verbatim>\<open>\b\<close>, among the code units below 256.
  \<^verbatim>\<open>replace_i\<close> is the global replacement of \<^verbatim>\<open>/\bi\b/\<close> by \<^verbatim>\<open>I\<close>: scanning
  from the left, a character \<^verbatim>\<open>i\<close> matches when the character before it (if any) is
  not a word character and the character after it (if any) is not one either.
  \<^verbatim>\<open>collapse_ws\<close> is the global replacement of \<^verbatim>\<open>/\s+/\<close> by one space.
  \<^verbatim>\<open>toUpperCase\<close> is the host's case mapping, a parameter.
\<close>

definition is_space :: "char \<Rightarrow> bool" where
  "is_space c = ((of_char c :: nat) \<in> {9, 10, 11, 12, 13, 32, 160})"

definition is_word :: "char \<Rightarrow> bool" where
  "is_word c =
     (let n = (of_char c :: nat)
      in (48 \<le> n \<and> n \<le> 57) \<or> (65 \<le> n \<and> n \<le> 90) \<or> n = 95 \<or> (97 \<le> n \<and> n \<le> 122))"

definition trim :: "string \<Rightarrow> string" where
  "trim s = rev (dropWhile is_space (rev (dropWhile is_space s)))"

fun replace_i :: "bool \<Rightarrow> string \<Rightarrow> string" where
  "replace_i prev_word [] = []"
| "replace_i prev_word (c # cs) =
     (if c = CHR ''i'' \<and> \<not> prev_word \<and> (case cs of [] \<Rightarrow> True | d # _ \<Rightarrow> \<not> is_word d)
      then CHR ''I'' # replace_i True cs
      else c # replace_i (is_word c) cs)"

function collapse_ws :: "string \<Rightarrow> string" where
  "collapse_ws [] = []"
| "collapse_ws (c # cs) =
     (if is_space c then CHR '' '' # collapse_ws (dropWhile is_space cs)
      else c # collapse_ws cs)"
  by pat_completeness auto
termination
  by (relation "measure length") (auto simp: length_dropWhile_le less_Suc_eq_le)

definition processTranscript :: "(string \<Rightarrow> string) \<Rightarrow> string \<Rightarrow> string" where
  "processTranscript toUpperCase text0 =
     (let text1 = trim text0;
          text2 = (if length text1 > 0 then toUpperCase (take 1 text1) @ drop 1 text1 else text1);
          text3 = replace_i False text2;
          text4 = collapse_ws text3
      in text4)"





text \<open>
  \<^verbatim>\<open>recognition.onresult\<close> of the service: every result from \<^verbatim>\<open>resultIndex\<close> on
  becomes an entry with the processed text, handed to the \<^verbatim>\<open>onResult\<close> callback; a
  final result resets the start time.
\<close>

definition service_onresult :: "(string \<Rightarrow> string) \<Rightarrow> RecognitionEvent \<Rightarrow> Service \<Rightarrow> Service" where
  "service_onresult toUpperCase ev s =
     foldl
       (\<lambda>st i.
          (let result = results ev ! i;
               clock = clock_at ev i;
               entry = \<lparr> entry_text = processTranscript toUpperCase (alt_transcript result),
                         timestamp = Some (at_timestamp clock),
                         startTime = (case service_startTime st of Some d \<Rightarrow> d
                                      | None \<Rightarrow> Some (at_start clock)),
                         endTime = Some (at_end clock),
                         confidence = Some (if alt_confidence result = 0 then 0
                                            else alt_confidence result),
                         isFinal = result_isFinal result,
                         speaker = Some ''User'' \<rparr>;
               st1 = emit (OnResult entry) st
           in if result_isFinal result
              then st1\<lparr>service_startTime := Some (Some (at_reset clock))\<rparr>
              else st1))
       s [resultIndex ev ..< length (results ev)]"

section \<open>JavaScript values in the session store (lib/captions/storage.ts)\<close>

text \<open>
  The store handles untyped values (\<^verbatim>\<open>any\<close>): whatever \<^verbatim>\<open>JSON.parse\<close> returns,
  and the objects built from it.  An object is the list of its own properties in
  insertion order; an array is the list of its elements.
\<close>

datatype jsval =
    JUndefined | JNull | JBool bool | JNum rat | JStr string | JDate date
  | JArr "jsval list" | JObj "(string \<times> jsval) list"

text \<open>
  What the code takes from the host and this repository does not define: the JSON codec,
  the Date codec and the conversions of numbers and dates to strings.
  \<^item> \<open>JSON_parse\<close>: \<^verbatim>\<open>JSON.parse\<close>, \<open>None\<close> when it throws a SyntaxError;
  \<^item> \<open>JSON_text indent v\<close>: the text \<^verbatim>\<open>JSON.stringify\<close> writes for the JSON value
    \<open>v\<close> with the given indentation (0 for none);
  \<^item> \<open>Date_parse\<close>: \<^verbatim>\<open>Date.parse\<close>, \<open>None\<close> for NaN;
  \<^item> \<open>toISOString\<close>: \<^verbatim>\<open>Date.prototype.toISOString\<close> on a valid time value;
  \<^item> \<open>Date_toString\<close>, \<open>Number_toString\<close>: the string conversions.
\<close>

record host =
  JSON_parse :: "string \<Rightarrow> jsval option"
  JSON_text :: "nat \<Rightarrow> jsval \<Rightarrow> string"
  Date_parse :: "string \<Rightarrow> int option"
  toISOString :: "int \<Rightarrow> string"
  Date_toString :: "date \<Rightarrow> string"
  Number_toString :: "rat \<Rightarrow> string"

text \<open>
  The value \<^verbatim>\<open>JSON.stringify\<close> serializes: a Date becomes its ISO string, or
  \<^verbatim>\<open>null\<close> when invalid; an \<^verbatim>\<open>undefined\<close> array element becomes \<^verbatim>\<open>null\<close>; an
  \<^verbatim>\<open>undefined\<close> property is left out.
\<close>

fun toJSON :: "host \<Rightarrow> jsval \<Rightarrow> jsval"
  and toJSON_elements :: "host \<Rightarrow> jsval list \<Rightarrow> jsval list"
  and toJSON_properties :: "host \<Rightarrow> (string \<times> jsval) list \<Rightarrow> (string \<times> jsval) list" where
  "toJSON h (JDate d) = (case d of None \<Rightarrow> JNull | Some t \<Rightarrow> JStr (toISOString h t))"
| "toJSON h (JArr xs) = JArr (toJSON_elements h xs)"
| "toJSON h (JObj kvs) = JObj (toJSON_properties h kvs)"
| "toJSON h JUndefined = JUndefined"
| "toJSON h JNull = JNull"
| "toJSON h (JBool b) = JBool b"
| "toJSON h (JNum q) = JNum q"
| "toJSON h (JStr s) = JStr s"
| "toJSON_elements h [] = []"
| "toJSON_elements h (x # xs) =
     (if x = JUndefined then JNull else toJSON h x) # toJSON_elements h xs"
| "toJSON_properties h [] = []"
| "toJSON_properties h (kv # kvs) =
     (if snd kv = JUndefined then toJSON_properties h kvs
      else (fst kv, toJSON h (snd kv)) # toJSON_properties h kvs)"

text \<open>
  \<^verbatim>\<open>JSON.stringify(v, null, indent)\<close> where its result is used as a string.  For
  \<^verbatim>\<open>undefined\<close> it returns \<^verbatim>\<open>undefined\<close>, which \<^verbatim>\<open>setItem\<close> would store as
  the string \<^verbatim>\<open>undefined\<close>; the store never serializes \<^verbatim>\<open>undefined\<close> itself.
\<close>

definition JSON_stringify :: "host \<Rightarrow> nat \<Rightarrow> jsval \<Rightarrow> string" where
  "JSON_stringify h indent v =
     (case toJSON h v of JUndefined \<Rightarrow> ''undefined'' | j \<Rightarrow> JSON_text h indent j)"

text \<open>
  Reading a property \<^verbatim>\<open>v.k\<close>, for the names the store reads (\<^verbatim>\<open>id\<close>,
  \<^verbatim>\<open>startTime\<close>, \<^verbatim>\<open>endTime\<close>, \<^verbatim>\<open>timestamp\<close>, \<^verbatim>\<open>transcript\<close>), which no built-in
  prototype defines: a TypeError (\<open>None\<close>) on \<^verbatim>\<open>null\<close> and \<^verbatim>\<open>undefined\<close>, the own
  property of an object, \<^verbatim>\<open>undefined\<close> otherwise.
\<close>

fun get_prop :: "jsval \<Rightarrow> string \<Rightarrow> jsval option" where
  "get_prop JUndefined k = None"
| "get_prop JNull k = None"
| "get_prop (JObj kvs) k = Some (case map_of kvs k of Some v \<Rightarrow> v | None \<Rightarrow> JUndefined)"
| "get_prop v k = Some JUndefined"

text \<open>
  Conversion to a string (template literals, and the primitive of an object given to
  \<^verbatim>\<open>new Date\<close>).  An array joins its elements with commas, \<^verbatim>\<open>null\<close> and
  \<^verbatim>\<open>undefined\<close> elements as empty strings.  An object of parsed JSON is
  \<^verbatim>\<open>[object Object]\<close>, unless it has an own property \<^verbatim>\<open>toString\<close>, which is not
  callable and makes the conversion throw a TypeError (\<open>None\<close>).
\<close>

fun js_toString :: "host \<Rightarrow> jsval \<Rightarrow> string option"
  and js_join :: "host \<Rightarrow> jsval list \<Rightarrow> string option" where
  "js_toString h JUndefined = Some ''undefined''"
| "js_toString h JNull = Some ''null''"
| "js_toString h (JBool b) = Some (if b then ''true'' else ''false'')"
| "js_toString h (JNum q) = Some (Number_toString h q)"
| "js_toString h (JStr s) = Some s"
| "js_toString h (JDate d) = Some (Date_toString h d)"
| "js_toString h (JArr xs) = js_join h xs"
| "js_toString h (JObj kvs) =
     (if map_of kvs ''toString'' = None then Some ''[object Object]'' else None)"
| "js_join h [] = Some []"
| "js_join h (x # xs) =
     (case (if x = JUndefined \<or> x = JNull then Some [] else js_toString h x) of
        None \<Rightarrow> None
      | Some s \<Rightarrow> (if xs = [] then Some s
                   else (case js_join h xs of None \<Rightarrow> None | Some r \<Rightarrow> Some (s @ '','' @ r))))"

text \<open>\<^verbatim>\<open>TimeClip\<close> of a number: NaN beyond 8.64e15 ms, truncated towards zero otherwise.\<close>

definition time_clip :: "rat \<Rightarrow> date" where
  "time_clip q =
     (if \<bar>q\<bar> > 8640000000000000 then None
      else Some (if q < 0 then - \<lfloor>- q\<rfloor> else \<lfloor>q\<rfloor>))"

text \<open>\<^verbatim>\<open>new Date(v)\<close>: the time value of the new Date, or \<open>None\<close> for a TypeError.\<close>

fun new_Date :: "host \<Rightarrow> jsval \<Rightarrow> date option" where
  "new_Date h JUndefined = Some None"
| "new_Date h JNull = Some (Some 0)"
| "new_Date h (JBool b) = Some (Some (if b then 1 else 0))"
| "new_Date h (JNum q) = Some (time_clip q)"
| "new_Date h (JStr s) = Some (Date_parse h s)"
| "new_Date h (JDate d) = Some d"
| "new_Date h v = map_option (Date_parse h) (js_toString h v)"

text \<open>
  The own enumerable properties an object spread \<^verbatim>\<open>{...v}\<close> copies: those of an
  object, the indexed elements of an array, the indexed characters of a string, nothing
  of any other value.
\<close>

fun spread_props :: "jsval \<Rightarrow> (string \<times> jsval) list" where
  "spread_props (JObj kvs) = kvs"
| "spread_props (JArr xs) = zip (map show_nat [0 ..< length xs]) xs"
| "spread_props (JStr s) = zip (map show_nat [0 ..< length s]) (map (\<lambda>c. JStr [c]) s)"
| "spread_props v = []"

text \<open>
  Setting a property in an object literal after a spread: an existing property keeps its
  place and takes the new value, a new one goes last.
\<close>

definition set_prop :: "string \<Rightarrow> jsval \<Rightarrow> (string \<times> jsval) list \<Rightarrow> (string \<times> jsval) list" where
  "set_prop k v kvs = AList.update k v kvs"

text \<open>\<^verbatim>\<open>a === b\<close>: primitives by value; objects, arrays and dates by identity, and the
  two sides the store compares never are the same object.\<close>

fun strict_eq :: "jsval \<Rightarrow> jsval \<Rightarrow> bool" where
  "strict_eq JUndefined JUndefined = True"
| "strict_eq JNull JNull = True"
| "strict_eq (JBool a) (JBool b) = (a = b)"
| "strict_eq (JNum a) (JNum b) = (a = b)"
| "strict_eq (JStr a) (JStr b) = (a = b)"
| "strict_eq a b = False"

text \<open>\<^verbatim>\<open>Array.prototype.findIndex\<close>; \<open>None\<close> is \<open>-1\<close>.\<close>

fun findIndex :: "('a \<Rightarrow> bool) \<Rightarrow> 'a list \<Rightarrow> nat option" where
  "findIndex P [] = None"
| "findIndex P (x # xs) = (if P x then Some 0 else map_option Suc (findIndex P xs))"

section \<open>The session store (lib/captions/storage.ts, CaptionStorage)\<close>

text \<open>
  The environment: on the server \<^verbatim>\<open>window\<close> is undefined; in the browser there is a
  \<^verbatim>\<open>localStorage\<close>, a map from keys to strings (\<^verbatim>\<open>getItem\<close> returns \<^verbatim>\<open>null\<close> for a
  missing key).  The storage quota is not modelled: \<^verbatim>\<open>setItem\<close> always succeeds.
\<close>

datatype env = Server | Browser "string \<rightharpoonup> string"

definition STORAGE_KEY :: string where
  "STORAGE_KEY = ''meeting_captions''"

definition SESSION_PREFIX :: string where
  "SESSION_PREFIX = ''caption_session_''"

definition getItem :: "env \<Rightarrow> string \<Rightarrow> string option" where
  "getItem e k = (case e of Server \<Rightarrow> None | Browser ls \<Rightarrow> ls k)"

text \<open>The inner \<^verbatim>\<open>map\<close> callback of \<^verbatim>\<open>getAllSessions\<close>; \<open>None\<close> is a thrown TypeError.\<close>

definition revive_entry :: "host \<Rightarrow> jsval \<Rightarrow> jsval option" where
  "revive_entry h entry =
     do {
       ts \<leftarrow> get_prop entry ''timestamp'';
       d1 \<leftarrow> new_Date h ts;
       st \<leftarrow> get_prop entry ''startTime'';
       d2 \<leftarrow> new_Date h st;
       en \<leftarrow> get_prop entry ''endTime'';
       d3 \<leftarrow> new_Date h en;
       Some (JObj (set_prop ''endTime'' (JDate d3)
                    (set_prop ''startTime'' (JDate d2)
                      (set_prop ''timestamp'' (JDate d1) (spread_props entry)))))
     }"

text \<open>
  The outer \<^verbatim>\<open>map\<close> callback.  \<^verbatim>\<open>session.transcript.map\<close> is a function only when
  the property is an array.
\<close>

definition revive_session :: "host \<Rightarrow> jsval \<Rightarrow> jsval option" where
  "revive_session h session =
     do {
       st \<leftarrow> get_prop session ''startTime'';
       d1 \<leftarrow> new_Date h st;
       en \<leftarrow> get_prop session ''endTime'';
       d2 \<leftarrow> new_Date h en;
       tr \<leftarrow> get_prop session ''transcript'';
       entries \<leftarrow> (case tr of JArr es \<Rightarrow> those (map (revive_entry h) es) | _ \<Rightarrow> None);
       Some (JObj (set_prop ''transcript'' (JArr entries)
                    (set_prop ''endTime'' (JDate d2)
                      (set_prop ''startTime'' (JDate d1) (spread_props session)))))
     }"

text \<open>
  \<^verbatim>\<open>getAllSessions\<close>: every failure inside the \<^verbatim>\<open>try\<close> (a syntax error, a parsed
  value that is not an array, a TypeError in a callback) ends in \<^verbatim>\<open>return []\<close>.
\<close>

definition getAllSessions :: "host \<Rightarrow> env \<Rightarrow> jsval list" where
  "getAllSessions h e =
     (case e of
        Server \<Rightarrow> []
      | Browser ls \<Rightarrow>
          (case ls STORAGE_KEY of
             None \<Rightarrow> []
           | Some sessions \<Rightarrow>
               if sessions = [] then []
               else (case JSON_parse h sessions of
                       None \<Rightarrow> []
                     | Some parsed \<Rightarrow>
                         (case parsed of
                            JArr xs \<Rightarrow>
                              (case those (map (revive_session h) xs) of
                                 None \<Rightarrow> []
                               | Some ss \<Rightarrow> ss)
                          | _ \<Rightarrow> []))))"

text \<open>
  \<^verbatim>\<open>sessions.findIndex(s => s.id === session.id)\<close>: the callback runs once per stored
  session, so \<^verbatim>\<open>session.id\<close> throws only when there is one.  The outer \<open>None\<close> is the
  TypeError.
\<close>

definition existingIndex :: "jsval list \<Rightarrow> jsval \<Rightarrow> nat option option" where
  "existingIndex sessions session =
     (if sessions = [] then Some None
      else (case get_prop session ''id'' of
              None \<Rightarrow> None
            | Some sid \<Rightarrow>
                Some (findIndex (\<lambda>s. strict_eq (case get_prop s ''id'' of Some v \<Rightarrow> v
                                                  | None \<Rightarrow> JUndefined) sid) sessions)))"

text \<open>
  \<^verbatim>\<open>saveSession\<close>: a TypeError is caught and logged; what was written before it
  stays written.
\<close>

definition saveSession :: "host \<Rightarrow> jsval \<Rightarrow> env \<Rightarrow> env" where
  "saveSession h session e =
     (case e of
        Server \<Rightarrow> Server
      | Browser ls \<Rightarrow>
          (let sessions = getAllSessions h e
           in case existingIndex sessions session of
                None \<Rightarrow> e
              | Some idx \<Rightarrow>
                  (let sessions' = (case idx of
                                      Some i \<Rightarrow> sessions[i := session]
                                    | None \<Rightarrow> sessions @ [session]);
                       ls1 = ls(STORAGE_KEY \<mapsto> JSON_stringify h 0 (JArr sessions'))
                   in case Option.bind (get_prop session ''id'') (js_toString h) of
                        None \<Rightarrow> Browser ls1
                      | Some sid \<Rightarrow>
                          Browser (ls1(SESSION_PREFIX @ sid \<mapsto> JSON_stringify h 0 session)))))"

definition exportSessions :: "host \<Rightarrow> env \<Rightarrow> string" where
  "exportSessions h e = JSON_stringify h 2 (JArr (getAllSessions h e))"

text \<open>
  \<^verbatim>\<open>importSessions\<close>: the only validation is \<^verbatim>\<open>Array.isArray\<close>; then every element
  is saved in turn.
\<close>

definition importSessions :: "host \<Rightarrow> string \<Rightarrow> env \<Rightarrow> bool \<times> env" where
  "importSessions h jsonString e =
     (case e of
        Server \<Rightarrow> (False, e)
      | Browser ls \<Rightarrow>
          (case JSON_parse h jsonString of
             None \<Rightarrow> (False, e)
           | Some sessions \<Rightarrow>
               (case sessions of
                  JArr xs \<Rightarrow> (True, foldl (\<lambda>st session. saveSession h session st) e xs)
                | _ \<Rightarrow> (False, e))))"




section \<open>Typed sessions in the store\<close>

text \<open>
  A \<^verbatim>\<open>CaptionSession\<close> of types.ts, and the object it is once it has been through
  the store: the properties in the order the hook writes them, time fields as Date
  objects, an absent optional field as an absent property.
\<close>

record CaptionSession =
  session_id :: string
  session_name :: string
  session_startTime :: date
  session_endTime :: date
  session_transcript :: "TranscriptEntry list"
  session_language :: string

definition entry_to_js :: "TranscriptEntry \<Rightarrow> jsval" where
  "entry_to_js e =
     JObj ([(''text'', JStr (entry_text e)),
            (''timestamp'', JDate (timestamp e)),
            (''startTime'', JDate (startTime e)),
            (''endTime'', JDate (endTime e))]
           @ (case confidence e of None \<Rightarrow> [] | Some q \<Rightarrow> [(''confidence'', JNum q)])
           @ [(''isFinal'', JBool (isFinal e))]
           @ (case speaker e of None \<Rightarrow> [] | Some n \<Rightarrow> [(''speaker'', JStr n)]))"

definition session_to_js :: "CaptionSession \<Rightarrow> jsval" where
  "session_to_js s =
     JObj [(''id'', JStr (session_id s)),
           (''name'', JStr (session_name s)),
           (''startTime'', JDate (session_startTime s)),
           (''endTime'', JDate (session_endTime s)),
           (''transcript'', JArr (map entry_to_js (session_transcript s))),
           (''language'', JStr (session_language s))]"

text \<open>
  The conditions of the round trip on the host, for the values at hand: a time value is
  valid and the host reads its ISO string back to it; the host parses the text it wrote
  for a list of sessions back to the value it serialized, and that text is not empty.
\<close>

definition date_roundtrips :: "host \<Rightarrow> date \<Rightarrow> bool" where
  "date_roundtrips h d =
     (case d of None \<Rightarrow> False | Some t \<Rightarrow> Date_parse h (toISOString h t) = Some t)"

definition entry_dates_ok :: "host \<Rightarrow> TranscriptEntry \<Rightarrow> bool" where
  "entry_dates_ok h e =
     (date_roundtrips h (timestamp e) \<and> date_roundtrips h (startTime e)
      \<and> date_roundtrips h (endTime e))"

definition session_dates_ok :: "host \<Rightarrow> CaptionSession \<Rightarrow> bool" where
  "session_dates_ok h s =
     (date_roundtrips h (session_startTime s) \<and> date_roundtrips h (session_endTime s)
      \<and> list_all (entry_dates_ok h) (session_transcript s))"

definition sessions_json :: "host \<Rightarrow> CaptionSession list \<Rightarrow> jsval" where
  "sessions_json h ss = JArr (map (\<lambda>s. toJSON h (session_to_js s)) ss)"

definition json_roundtrips :: "host \<Rightarrow> nat \<Rightarrow> CaptionSession list \<Rightarrow> bool" where
  "json_roundtrips h indent ss =
     (JSON_text h indent (sessions_json h ss) \<noteq> []
      \<and> JSON_parse h (JSON_text h indent (sessions_json h ss)) = Some (sessions_json h ss))"

text \<open>Saving a session into a list of sessions: replace the first with its id, or append.\<close>

definition upsert :: "CaptionSession list \<Rightarrow> CaptionSession \<Rightarrow> CaptionSession list" where
  "upsert cur s =
     (case findIndex (\<lambda>c. session_id c = session_id s) cur of
        Some i \<Rightarrow> cur[i := s]
      | None \<Rightarrow> cur @ [s])"

definition in_browser :: "env \<Rightarrow> bool" where
  "in_browser e = (case e of Browser ls \<Rightarrow> True | Server \<Rightarrow> False)"

section \<open>A reference host\<close>

text \<open>
  The theorems about the store hold for every host.  To run the store on concrete texts
  the host's functions are given here executably: the JSON grammar and serialization of
  ECMAScript (over code units below 256; a number is written as a plain decimal with at
  most 17 fraction digits, as JavaScript writes the numbers between 1e-6 and 1e21), and
  the ISO timestamp format \<^verbatim>\<open>YYYY-MM-DDTHH:mm:ss.sssZ\<close> that \<^verbatim>\<open>toISOString\<close>
  writes and that \<^verbatim>\<open>Date.parse\<close> reads back; this \<^verbatim>\<open>Date.parse\<close> reads no other
  format.
\<close>

definition dquote :: char where
  "dquote = CHR 0x22"

definition backslash :: char where
  "backslash = CHR 0x5C"

definition hex_digit :: "nat \<Rightarrow> char" where
  "hex_digit n = ''0123456789abcdef'' ! n"

definition ref_escape :: "char \<Rightarrow> string" where
  "ref_escape c =
     (if c = dquote then [backslash, dquote]
      else if c = backslash then [backslash, backslash]
      else if c = CHR 0x08 then [backslash, CHR ''b'']
      else if c = CHR 0x0C then [backslash, CHR ''f'']
      else if c = CHR 0x0A then [backslash, CHR ''n'']
      else if c = CHR 0x0D then [backslash, CHR ''r'']
      else if c = CHR 0x09 then [backslash, CHR ''t'']
      else if (of_char c :: nat) < 32 then
        [backslash, CHR ''u'', CHR ''0'', CHR ''0'',
         hex_digit ((of_char c :: nat) div 16), hex_digit ((of_char c :: nat) mod 16)]
      else [c])"

definition ref_quote :: "string \<Rightarrow> string" where
  "ref_quote s = [dquote] @ concat (map ref_escape s) @ [dquote]"

fun frac_digits :: "nat \<Rightarrow> nat \<Rightarrow> nat \<Rightarrow> string" where
  "frac_digits 0 r d = []"
| "frac_digits (Suc n) r d =
     (if r = 0 then [] else digit_char (r * 10 div d) # frac_digits n (r * 10 mod d) d)"

definition ref_Number_toString :: "rat \<Rightarrow> string" where
  "ref_Number_toString q =
     (let (a, b) = quotient_of q;
          n = nat \<bar>a\<bar>;
          d = nat b;
          body = show_nat (n div d)
                 @ (if n mod d = 0 then [] else ''.'' @ frac_digits 17 (n mod d) d)
      in (if a < 0 then ''-'' else []) @ body)"

fun ref_text :: "nat \<Rightarrow> nat \<Rightarrow> jsval \<Rightarrow> string"
  and ref_text_elements :: "nat \<Rightarrow> nat \<Rightarrow> jsval list \<Rightarrow> string"
  and ref_text_members :: "nat \<Rightarrow> nat \<Rightarrow> (string \<times> jsval) list \<Rightarrow> string" where
  "ref_text gap ind JNull = ''null''"
| "ref_text gap ind JUndefined = ''null''"
| "ref_text gap ind (JDate d) = ''null''"
| "ref_text gap ind (JBool b) = (if b then ''true'' else ''false'')"
| "ref_text gap ind (JNum q) = ref_Number_toString q"
| "ref_text gap ind (JStr s) = ref_quote s"
| "ref_text gap ind (JArr xs) =
     (if xs = [] then ''[]''
      else if gap = 0 then ''['' @ ref_text_elements gap ind xs @ '']''
      else ''['' @ newline @ replicate (ind + gap) CHR '' ''
           @ ref_text_elements gap (ind + gap) xs
           @ newline @ replicate ind CHR '' '' @ '']'')"
| "ref_text gap ind (JObj kvs) =
     (if kvs = [] then ''{}''
      else if gap = 0 then ''{'' @ ref_text_members gap ind kvs @ ''}''
      else ''{'' @ newline @ replicate (ind + gap) CHR '' ''
           @ ref_text_members gap (ind + gap) kvs
           @ newline @ replicate ind CHR '' '' @ ''}'')"
| "ref_text_elements gap ind [] = []"
| "ref_text_elements gap ind (x # xs) =
     ref_text gap ind x
     @ (if xs = [] then []
        else (if gap = 0 then '','' else '','' @ newline @ replicate ind CHR '' '')
             @ ref_text_elements gap ind xs)"
| "ref_text_members gap ind [] = []"
| "ref_text_members gap ind (kv # kvs) =
     ref_quote (fst kv) @ (if gap = 0 then '':'' else '': '') @ ref_text gap ind (snd kv)
     @ (if kvs = [] then []
        else (if gap = 0 then '','' else '','' @ newline @ replicate ind CHR '' '')
             @ ref_text_members gap ind kvs)"

definition ref_JSON_text :: "nat \<Rightarrow> jsval \<Rightarrow> string" where
  "ref_JSON_text indent v = ref_text indent 0 v"

subsection \<open>Parsing JSON\<close>

definition is_json_ws :: "char \<Rightarrow> bool" where
  "is_json_ws c = (c = CHR '' '' \<or> c = CHR 0x09 \<or> c = CHR 0x0A \<or> c = CHR 0x0D)"

definition skip_ws :: "string \<Rightarrow> string" where
  "skip_ws s = dropWhile is_json_ws s"

definition is_digit :: "char \<Rightarrow> bool" where
  "is_digit c = (48 \<le> (of_char c :: nat) \<and> (of_char c :: nat) \<le> 57)"

definition digit_val :: "char \<Rightarrow> nat" where
  "digit_val c = of_char c - 48"

definition digits_val :: "string \<Rightarrow> nat" where
  "digits_val ds = foldl (\<lambda>a c. a * 10 + digit_val c) 0 ds"

definition hex_val :: "char \<Rightarrow> nat option" where
  "hex_val c =
     (if is_digit c then Some (of_char c - 48)
      else if 97 \<le> (of_char c :: nat) \<and> (of_char c :: nat) \<le> 102 then Some (of_char c - 87)
      else if 65 \<le> (of_char c :: nat) \<and> (of_char c :: nat) \<le> 70 then Some (of_char c - 55)
      else None)"

text \<open>The characters of a string literal after its opening quote, and the rest.\<close>

fun parse_string :: "string \<Rightarrow> (string \<times> string) option" where
  "parse_string [] = None"
| "parse_string (c # cs) =
     (if c = dquote then Some ([], cs)
      else if c = backslash then
        (case cs of
           [] \<Rightarrow> None
         | e # r \<Rightarrow>
             (if e = CHR ''u'' then
                (case r of
                   a # b # c' # d # r' \<Rightarrow>
                     (case (hex_val a, hex_val b, hex_val c', hex_val d) of
                        (Some x3, Some x2, Some x1, Some x0) \<Rightarrow>
                          (if x3 = 0 \<and> x2 = 0 then
                             map_option (\<lambda>(s, t). (char_of (x1 * 16 + x0) # s, t)) (parse_string r')
                           else None)
                      | _ \<Rightarrow> None)
                 | _ \<Rightarrow> None)
              else
                (case (if e = dquote then Some dquote
                       else if e = backslash then Some backslash
                       else if e = CHR ''/'' then Some CHR ''/''
                       else if e = CHR ''b'' then Some (CHR 0x08)
                       else if e = CHR ''f'' then Some (CHR 0x0C)
                       else if e = CHR ''n'' then Some (CHR 0x0A)
                       else if e = CHR ''r'' then Some (CHR 0x0D)
                       else if e = CHR ''t'' then Some (CHR 0x09)
                       else None) of
                   None \<Rightarrow> None
                 | Some x \<Rightarrow> map_option (\<lambda>(s, t). (x # s, t)) (parse_string r))))
      else if (of_char c :: nat) < 32 then None
      else map_option (\<lambda>(s, t). (c # s, t)) (parse_string cs))"

text \<open>
  A number literal: an optional minus, an integer part without a leading zero, an optional
  fraction, an optional exponent.
\<close>

definition parse_exponent :: "string \<Rightarrow> (int \<times> string) option" where
  "parse_exponent s =
     (case s of
        e # r \<Rightarrow>
          (if e = CHR ''e'' \<or> e = CHR ''E'' then
             (let (neg, r1) = (case r of
                                 c # r' \<Rightarrow> (if c = CHR ''-'' then (True, r')
                                             else if c = CHR ''+'' then (False, r')
                                             else (False, r))
                               | [] \<Rightarrow> (False, r));
                  ds = takeWhile is_digit r1
              in if ds = [] then None
                 else Some ((if neg then - int (digits_val ds) else int (digits_val ds)),
                            dropWhile is_digit r1))
           else Some (0, s))
      | [] \<Rightarrow> Some (0, s))"

definition parse_number :: "string \<Rightarrow> (rat \<times> string) option" where
  "parse_number s =
     (let (neg, s1) = (case s of c # r \<Rightarrow> (if c = CHR ''-'' then (True, r) else (False, s))
                       | [] \<Rightarrow> (False, s));
          ip = (case s1 of c # r \<Rightarrow> (if c = CHR ''0'' then [c] else takeWhile is_digit s1)
                | [] \<Rightarrow> []);
          s2 = drop (length ip) s1
      in if ip = [] then None
         else
           (let (fp, s3) = (case s2 of
                              c # r \<Rightarrow> (if c = CHR ''.'' then (Some (takeWhile is_digit r),
                                                                dropWhile is_digit r)
                                          else (None, s2))
                            | [] \<Rightarrow> (None, s2))
            in if fp = Some [] then None
               else
                 (case parse_exponent s3 of
                    None \<Rightarrow> None
                  | Some (ex, s4) \<Rightarrow>
                      (let fd = (case fp of Some ds \<Rightarrow> ds | None \<Rightarrow> []);
                           mant = rat_of_nat (digits_val (ip @ fd)) / 10 ^ length fd;
                           scaled = (if ex < 0 then mant / 10 ^ nat (- ex) else mant * 10 ^ nat ex)
                       in Some ((if neg then - scaled else scaled), s4)))))"

text \<open>
  The recursive descent, on fuel: every call consumes a character before it calls again,
  so the length of the text bounds the depth.  A repeated key keeps its first place and
  takes the last value.
\<close>

fun parse_value :: "nat \<Rightarrow> string \<Rightarrow> (jsval \<times> string) option"
  and parse_elements :: "nat \<Rightarrow> string \<Rightarrow> (jsval list \<times> string) option"
  and parse_members :: "nat \<Rightarrow> string \<Rightarrow> ((string \<times> jsval) list \<times> string) option" where
  "parse_value 0 s = None"
| "parse_value (Suc n) s =
     (case skip_ws s of
        [] \<Rightarrow> None
      | c # r \<Rightarrow>
          (if c = CHR ''['' then
             (case skip_ws r of
                [] \<Rightarrow> None
              | c' # r' \<Rightarrow>
                  (if c' = CHR '']'' then Some (JArr [], r')
                   else map_option (\<lambda>(xs, t). (JArr xs, t)) (parse_elements n r)))
           else if c = CHR ''{'' then
             (case skip_ws r of
                [] \<Rightarrow> None
              | c' # r' \<Rightarrow>
                  (if c' = CHR ''}'' then Some (JObj [], r')
                   else map_option
                          (\<lambda>(kvs, t). (JObj (foldl (\<lambda>m (k, v). AList.update k v m) [] kvs), t))
                          (parse_members n r)))
           else if c = dquote then map_option (\<lambda>(str, t). (JStr str, t)) (parse_string r)
           else if take 4 (c # r) = ''null'' then Some (JNull, drop 4 (c # r))
           else if take 4 (c # r) = ''true'' then Some (JBool True, drop 4 (c # r))
           else if take 5 (c # r) = ''false'' then Some (JBool False, drop 5 (c # r))
           else map_option (\<lambda>(q, t). (JNum q, t)) (parse_number (c # r))))"
| "parse_elements 0 s = None"
| "parse_elements (Suc n) s =
     (case parse_value n s of
        None \<Rightarrow> None
      | Some (v, r) \<Rightarrow>
          (case skip_ws r of
             [] \<Rightarrow> None
           | c # r' \<Rightarrow>
               (if c = CHR '','' then
                  map_option (\<lambda>(vs, t). (v # vs, t)) (parse_elements n r')
                else if c = CHR '']'' then Some ([v], r')
                else None)))"
| "parse_members 0 s = None"
| "parse_members (Suc n) s =
     (case skip_ws s of
        [] \<Rightarrow> None
      | q # r0 \<Rightarrow>
          (if q \<noteq> dquote then None
           else
             (case parse_string r0 of
                None \<Rightarrow> None
              | Some (k, r1) \<Rightarrow>
                  (case skip_ws r1 of
                     [] \<Rightarrow> None
                   | c # r2 \<Rightarrow>
                       (if c \<noteq> CHR '':'' then None
                        else
                          (case parse_value n r2 of
                             None \<Rightarrow> None
                           | Some (v, r3) \<Rightarrow>
                               (case skip_ws r3 of
                                  [] \<Rightarrow> None
                                | c' # r4 \<Rightarrow>
                                    (if c' = CHR '','' then
                                       map_option (\<lambda>(kvs, t). ((k, v) # kvs, t))
                                         (parse_members n r4)
                                     else if c' = CHR ''}'' then Some ([(k, v)], r4)
                                     else None))))))))"

definition ref_JSON_parse :: "string \<Rightarrow> jsval option" where
  "ref_JSON_parse s =
     (case parse_value (length s + 2) s of
        None \<Rightarrow> None
      | Some (v, r) \<Rightarrow> (if skip_ws r = [] then Some v else None))"

subsection \<open>ISO timestamps\<close>

text \<open>The civil date (year, month, day) of a day number counted from 1970-01-01.\<close>

definition civil_from_days :: "int \<Rightarrow> int \<times> int \<times> int" where
  "civil_from_days z0 =
     (let z = z0 + 719468;
          era = z div 146097;
          doe = z - era * 146097;
          yoe = (doe - doe div 1460 + doe div 36524 - doe div 146096) div 365;
          y = yoe + era * 400;
          doy = doe - (365 * yoe + yoe div 4 - yoe div 100);
          mp = (5 * doy + 2) div 153;
          d = doy - (153 * mp + 2) div 5 + 1;
          m = (if mp < 10 then mp + 3 else mp - 9)
      in (if m \<le> 2 then y + 1 else y, m, d))"

definition days_from_civil :: "int \<Rightarrow> int \<Rightarrow> int \<Rightarrow> int" where
  "days_from_civil y0 m d =
     (let y = (if m \<le> 2 then y0 - 1 else y0);
          era = y div 400;
          yoe = y - era * 400;
          mp = (if m > 2 then m - 3 else m + 9);
          doy = (153 * mp + 2) div 5 + d - 1;
          doe = yoe * 365 + yoe div 4 - yoe div 100 + doy
      in era * 146097 + doe - 719468)"

definition pad_int :: "nat \<Rightarrow> int \<Rightarrow> string" where
  "pad_int n x = padStart n CHR ''0'' (show_nat (nat x))"

definition ref_toISOString :: "int \<Rightarrow> string" where
  "ref_toISOString t =
     (let days = t div 86400000;
          ms = t mod 86400000;
          (y, m, d) = civil_from_days days;
          year = (if 0 \<le> y \<and> y \<le> 9999 then pad_int 4 y
                  else (if y < 0 then ''-'' else ''+'') @ pad_int 6 \<bar>y\<bar>)
      in year @ ''-'' @ pad_int 2 m @ ''-'' @ pad_int 2 d @ ''T''
         @ pad_int 2 (ms div 3600000) @ '':'' @ pad_int 2 (ms div 60000 mod 60) @ '':''
         @ pad_int 2 (ms div 1000 mod 60) @ ''.'' @ pad_int 3 (ms mod 1000) @ ''Z'')"

definition ref_Date_parse :: "string \<Rightarrow> int option" where
  "ref_Date_parse s =
     (if length s = 24 \<and> list_all is_digit (take 4 s) \<and> s ! 4 = CHR ''-''
         \<and> list_all is_digit (take 2 (drop 5 s)) \<and> s ! 7 = CHR ''-''
         \<and> list_all is_digit (take 2 (drop 8 s)) \<and> s ! 10 = CHR ''T''
         \<and> list_all is_digit (take 2 (drop 11 s)) \<and> s ! 13 = CHR '':''
         \<and> list_all is_digit (take 2 (drop 14 s)) \<and> s ! 16 = CHR '':''
         \<and> list_all is_digit (take 2 (drop 17 s)) \<and> s ! 19 = CHR ''.''
         \<and> list_all is_digit (take 3 (drop 20 s)) \<and> s ! 23 = CHR ''Z''
      then
        (let y = int (digits_val (take 4 s));
             m = int (digits_val (take 2 (drop 5 s)));
             d = int (digits_val (take 2 (drop 8 s)));
             hh = int (digits_val (take 2 (drop 11 s)));
             mm = int (digits_val (take 2 (drop 14 s)));
             ss = int (digits_val (take 2 (drop 17 s)));
             ms = int (digits_val (take 3 (drop 20 s)))
         in if 1 \<le> m \<and> m \<le> 12 \<and> 1 \<le> d
               \<and> civil_from_days (days_from_civil y m d) = (y, m, d)
               \<and> hh < 24 \<and> mm < 60 \<and> ss < 60
            then Some (days_from_civil y m d * 86400000
                       + hh * 3600000 + mm * 60000 + ss * 1000 + ms)
            else None)
      else None)"

definition ref_host :: host where
  "ref_host =
     \<lparr> JSON_parse = ref_JSON_parse,
       JSON_text = ref_JSON_text,
       Date_parse = ref_Date_parse,
       toISOString = ref_toISOString,
       Date_toString = (\<lambda>d. case d of None \<Rightarrow> ''Invalid Date'' | Some t \<Rightarrow> ref_toISOString t),
       Number_toString = ref_Number_toString \<rparr>"

section \<open>Notions and examples used in the statements\<close>

text \<open>No pending timer of the service has the delay of the restart after an end event.\<close>

definition no_restart_after_1000 :: "Service \<Rightarrow> bool" where
  "no_restart_after_1000 s = list_all (\<lambda>(h, d, a). d \<noteq> 1000) (timers s)"

text \<open>
  A session-shaped record, read off the data model of the specification: an object with
  string \<^verbatim>\<open>id\<close>, \<^verbatim>\<open>name\<close> and \<^verbatim>\<open>language\<close>, a \<^verbatim>\<open>startTime\<close> and an
  \<^verbatim>\<open>endTime\<close>, and a \<^verbatim>\<open>transcript\<close> that is a sequence.
\<close>

definition has_string :: "(string \<times> jsval) list \<Rightarrow> string \<Rightarrow> bool" where
  "has_string kvs k = (case map_of kvs k of Some (JStr s) \<Rightarrow> True | _ \<Rightarrow> False)"

definition session_shaped :: "jsval \<Rightarrow> bool" where
  "session_shaped v =
     (case v of
        JObj kvs \<Rightarrow>
          has_string kvs ''id'' \<and> has_string kvs ''name'' \<and> has_string kvs ''language''
          \<and> map_of kvs ''startTime'' \<noteq> None \<and> map_of kvs ''endTime'' \<noteq> None
          \<and> (case map_of kvs ''transcript'' of Some (JArr es) \<Rightarrow> True | _ \<Rightarrow> False)
      | _ \<Rightarrow> False)"

text \<open>What \<^verbatim>\<open>importSessions\<close> does check: the text parses, and to an array.\<close>

definition parses_to_array :: "host \<Rightarrow> string \<Rightarrow> bool" where
  "parses_to_array h jsonString =
     (case JSON_parse h jsonString of Some (JArr xs) \<Rightarrow> True | _ \<Rightarrow> False)"

text \<open>A host case mapping for plain ASCII text, to run an example.\<close>

definition ascii_upper :: "string \<Rightarrow> string" where
  "ascii_upper s =
     map (\<lambda>c. if 97 \<le> (of_char c :: nat) \<and> (of_char c :: nat) \<le> 122
               then char_of ((of_char c :: nat) - 32) else c) s"

text \<open>A store to run the round trip on: one session with one final entry.\<close>

definition example_sessions :: "CaptionSession list" where
  "example_sessions =
     [\<lparr> session_id = ''s1'', session_name = ''Standup'',
        session_startTime = Some 1700000000000, session_endTime = Some 1700000004000,
        session_transcript =
          [\<lparr> entry_text = ''Hello.'', timestamp = Some 1700000004000,
             startTime = Some 1700000001000, endTime = Some 1700000004000,
             confidence = Some (9 / 10), isFinal = True, speaker = Some ''User'' \<rparr>],
        session_language = ''en'' \<rparr>]"

definition example_store :: env where
  "example_store =
     Browser (Map.empty(STORAGE_KEY \<mapsto>
       JSON_text ref_host 0 (sessions_json ref_host example_sessions)))"

text \<open>
  A store with a session whose start time is not a date.  The record is session-shaped,
  with the string \<^verbatim>\<open>x\<close> as its \<^verbatim>\<open>startTime\<close>; the store is what importing the
  text of the one-element array of this record into an empty store leaves behind; and
  \<open>undated_session d\<close> is the session the record is read as when its start time is read
  as \<open>d\<close>.
\<close>

definition undated_record :: jsval where
  "undated_record =
     JObj [(''id'', JStr ''s1''), (''name'', JStr ''Standup''), (''startTime'', JStr ''x''),
           (''endTime'', JStr ''2023-11-14T22:13:24.000Z''), (''transcript'', JArr []),
           (''language'', JStr ''en'')]"

definition undated_store :: env where
  "undated_store =
     snd (importSessions ref_host (JSON_text ref_host 0 (JArr [undated_record]))
            (Browser Map.empty))"

definition undated_session :: "date \<Rightarrow> CaptionSession" where
  "undated_session d =
     \<lparr> session_id = ''s1'', session_name = ''Standup'',
       session_startTime = d, session_endTime = Some 1700000004000,
       session_transcript = [], session_language = ''en'' \<rparr>"

section \<open>Properties of the reconciler\<close>

lemma transcript_reconcile:
  "transcript (reconcile r c s) = filter isFinal (transcript s) @ [make_entry r c (beginTimeRef s)]"
  by (simp add: reconcile_def setTranscript_updater_def Let_def)

lemma isFinal_make_entry [simp]: "isFinal (make_entry r c b) = result_isFinal r"
  by (simp add: make_entry_def)

lemma entry_text_make_entry [simp]: "entry_text (make_entry r c b) = alt_transcript r"
  by (simp add: make_entry_def)

lemma reconcile_all_snoc:
  "reconcile_all (rs @ [(r, c)]) s = reconcile r c (reconcile_all rs s)"
  by (simp add: reconcile_all_def)

lemma onresult_reconcile_all:
  "onresult ev s =
     reconcile_all (map (\<lambda>i. (results ev ! i, clock_at ev i))
                      [resultIndex ev ..< length (results ev)]) s"
  by (simp add: onresult_def reconcile_all_def foldl_map)

lemma final_entries_reconcile:
  "final_entries (transcript (reconcile r c s)) =
     final_entries (transcript s) @
       (if result_isFinal r then [make_entry r c (beginTimeRef s)] else [])"
  by (simp add: transcript_reconcile final_entries_def)

lemma interim_entries_reconcile:
  "interim_entries (transcript (reconcile r c s)) =
     (if result_isFinal r then [] else [make_entry r c (beginTimeRef s)])"
  by (simp add: transcript_reconcile interim_entries_def)

lemma final_entries_reconcile_all_prefix:
  "prefix (final_entries (transcript s)) (final_entries (transcript (reconcile_all rs s)))"
proof (induction rs rule: rev_induct)
  case Nil
  show ?case by (simp add: reconcile_all_def)
next
  case (snoc x xs)
  obtain r c where x: "x = (r, c)" by (cases x)
  have "prefix (final_entries (transcript (reconcile_all xs s)))
          (final_entries (transcript (reconcile_all (xs @ [x]) s)))"
    by (simp add: x reconcile_all_snoc final_entries_reconcile)
  with snoc.IH show ?case by (rule prefix_order.trans)
qed

lemma length_final_entries_reconcile_all:
  "length (final_entries (transcript (reconcile_all rs s))) =
     length (final_entries (transcript s)) + length (filter (\<lambda>(r, c). result_isFinal r) rs)"
proof (induction rs rule: rev_induct)
  case Nil
  show ?case by (simp add: reconcile_all_def)
next
  case (snoc x xs)
  obtain r c where x: "x = (r, c)" by (cases x)
  show ?case using snoc.IH
    by (simp add: x reconcile_all_snoc final_entries_reconcile)
qed

text \<open>
  C1.  Whatever the state before and whatever results were fed earlier, after a
  reconciliation step the transcript has at most one interim entry, every entry but the
  last is final, and the final entries that were in the transcript before the step are
  still there, unchanged and in order, as the leading part of the new transcript: the
  step only replaces a trailing interim entry or appends.  The same holds across any
  further sequence of results: final entries once present stay a prefix of the final
  entries later.
\<close>

theorem reconcile_keeps_single_interim_tail:
  "length (interim_entries (transcript (reconcile r c (reconcile_all rs s)))) \<le> 1
   \<and> list_all isFinal (butlast (transcript (reconcile r c (reconcile_all rs s))))
   \<and> butlast (transcript (reconcile r c (reconcile_all rs s)))
       = final_entries (transcript (reconcile_all rs s))
   \<and> prefix (final_entries (transcript s))
        (final_entries (transcript (reconcile_all rs s)))
   \<and> prefix (final_entries (transcript (reconcile_all rs s)))
        (transcript (reconcile r c (reconcile_all rs s)))"
proof -
  let ?s = "reconcile_all rs s"
  have t: "transcript (reconcile r c ?s)
             = final_entries (transcript ?s) @ [make_entry r c (beginTimeRef ?s)]"
    by (simp add: transcript_reconcile final_entries_def)
  have 1: "length (interim_entries (transcript (reconcile r c ?s))) \<le> 1"
    by (simp add: interim_entries_reconcile)
  have 2: "butlast (transcript (reconcile r c ?s)) = final_entries (transcript ?s)"
    by (simp add: t)
  have 3: "list_all isFinal (butlast (transcript (reconcile r c ?s)))"
    by (simp add: 2 final_entries_def list_all_iff)
  have 4: "prefix (final_entries (transcript ?s)) (transcript (reconcile r c ?s))"
    by (simp add: t)
  from 1 2 3 4 final_entries_reconcile_all_prefix [of s rs] show ?thesis by blast
qed

lemma interim_entries_reconcile_all:
  "interim_entries (transcript (reconcile_all rs initial_state)) =
     (if rs = [] \<or> result_isFinal (fst (last rs)) then []
      else [last (transcript (reconcile_all rs initial_state))])"
proof (cases rs rule: rev_cases)
  case Nil
  then show ?thesis by (simp add: reconcile_all_def initial_state_def interim_entries_def)
next
  case (snoc xs x)
  obtain r c where x: "x = (r, c)" by (cases x)
  have l: "last (transcript (reconcile r c (reconcile_all xs initial_state)))
             = make_entry r c (beginTimeRef (reconcile_all xs initial_state))"
    by (simp add: transcript_reconcile)
  show ?thesis
    unfolding snoc x reconcile_all_snoc l interim_entries_reconcile by simp
qed

text \<open>
  C2 fails as stated: after a final result the transcript has no interim entry at all
  (and before any result it is empty), so "exactly one non-final trailing entry" does
  not hold at every point.  Fed the single final result "hello", the transcript has one
  final entry and no interim entry.
\<close>

theorem no_interim_after_final_result:
  "length (interim_entries (transcript (reconcile_all
      [(\<lparr>alt_transcript = ''hello'', alt_confidence = 1, result_isFinal = True\<rparr>,
        \<lparr>at_timestamp = 10, at_start = 10, at_end = 10, at_reset = 10\<rparr>)]
      initial_state))) = 0
   \<and> length (final_entries (transcript (reconcile_all
      [(\<lparr>alt_transcript = ''hello'', alt_confidence = 1, result_isFinal = True\<rparr>,
        \<lparr>at_timestamp = 10, at_start = 10, at_end = 10, at_reset = 10\<rparr>)]
      initial_state))) = 1"
  by (simp add: reconcile_all_def transcript_reconcile interim_entries_def final_entries_def
      initial_state_def)

text \<open>
  C2, amended.  For every sequence of results fed to the reconciler from the empty
  transcript, the interim entries of the transcript are: none when no result has been
  received or the latest result was final, and exactly the last entry of the transcript
  when the latest result was interim; and the number of final entries equals the number
  of results received with \<^verbatim>\<open>isFinal\<close> true.
\<close>

theorem reconciled_transcript_counts:
  "interim_entries (transcript (reconcile_all rs initial_state)) =
     (if rs = [] \<or> result_isFinal (fst (last rs)) then []
      else [last (transcript (reconcile_all rs initial_state))])
   \<and> length (final_entries (transcript (reconcile_all rs initial_state))) =
       length (filter (\<lambda>(r, c). result_isFinal r) rs)"
proof -
  have "final_entries (transcript initial_state) = []"
    by (simp add: initial_state_def final_entries_def)
  then have "length (final_entries (transcript (reconcile_all rs initial_state))) =
       length (filter (\<lambda>(r, c). result_isFinal r) rs)"
    by (simp only: length_final_entries_reconcile_all) simp
  with interim_entries_reconcile_all [of rs] show ?thesis by blast
qed

text \<open>
  C3.  From the empty transcript, an event carrying the interim result "hell" followed
  by an event carrying the final result "hello" leaves a transcript of exactly one
  entry, final, with text "hello": the interim entry was replaced, not kept beside it.
  This holds for every confidence and every reading of the clock.
\<close>

theorem final_replaces_interim:
  "map (\<lambda>e. (entry_text e, isFinal e))
     (transcript
       (onresult \<lparr>results = [\<lparr>alt_transcript = ''hello'', alt_confidence = q2,
                               result_isFinal = True\<rparr>],
                  resultIndex = 0, clock_at = k2\<rparr>
         (onresult \<lparr>results = [\<lparr>alt_transcript = ''hell'', alt_confidence = q1,
                                 result_isFinal = False\<rparr>],
                    resultIndex = 0, clock_at = k1\<rparr>
            initial_state)))
   = [(''hello'', True)]"
  by (simp add: onresult_def transcript_reconcile initial_state_def)


section \<open>Properties of the formatters\<close>

lemma counter_fold:
  "fst (foldl (\<lambda>(output, counter) entry. (output @ g counter entry, counter + 1)) (out, k) xs)
   = out @ concat (map (\<lambda>(i, e). g i e) (zip [k ..< k + length xs] xs))"
proof (induction xs arbitrary: out k)
  case Nil
  show ?case by simp
next
  case (Cons x xs)
  have u: "[k ..< k + length (x # xs)] = k # [Suc k ..< Suc k + length xs]"
    by (simp add: upt_conv_Cons del: upt_Suc)
  show ?case
    unfolding u using Cons.IH [of "out @ g k x" "Suc k"] by simp
qed

lemma formatAsSRT_cues:
  "formatAsSRT t s now = concat (map (srt_cue_text (zero_point t s now)) (srt_cues t))"
proof -
  let ?z = "zero_point t s now"
  let ?g = "\<lambda>counter entry. show_nat counter @ newline
                 @ formatTimecodeSRT (startTime entry) ?z @ '' --> ''
                 @ formatTimecodeSRT (endTime entry) ?z @ newline
                 @ entry_text entry @ newline @ newline"
  have "formatAsSRT t s now
        = fst (foldl (\<lambda>(output, counter) entry. (output @ ?g counter entry, counter + 1))
                 ([], 1) (filter isFinal t))"
    by (simp add: formatAsSRT_def Let_def)
  also have "\<dots> = concat (map (\<lambda>(i, e). ?g i e)
                      (zip [1 ..< 1 + length (filter isFinal t)] (filter isFinal t)))"
    by (simp only: counter_fold append_Nil)
  also have "\<dots> = concat (map (srt_cue_text ?z) (srt_cues t))"
    by (simp add: srt_cues_def srt_cue_text_def [abs_def] case_prod_unfold del: upt_Suc)
  finally show ?thesis .
qed

lemma srt_cues_numbering:
  "map snd (srt_cues t) = final_entries t
   \<and> map fst (srt_cues t) = [1 ..< Suc (length (final_entries t))]
   \<and> length (srt_cues t) = length (final_entries t)"
  by (simp add: srt_cues_def final_entries_def del: upt_Suc)

lemma double_round_exact: "\<bar>x\<bar> \<le> 9007199254740992 \<Longrightarrow> double_round x = x"
  by (simp add: double_round_def)

lemma double_round_3723456 [simp]: "double_round 3723456 = 3723456"
  by (simp add: double_round_def)

text \<open>
  Two valid Dates one millisecond apart, at the far end of the range, have the same
  distance from a zero point at the other end: the odd difference is rounded.
\<close>

lemma elapsed_rounds_at_extreme_dates:
  "elapsed_ms (Some 8640000000000000) (Some (- 8640000000000000)) = Some 17280000000000000
   \<and> elapsed_ms (Some 8639999999999999) (Some (- 8640000000000000)) = Some 17280000000000000"
  by code_simp

lemmas timecode_eval =
  formatTimecodeSRT_def formatTimecodeVTT_def formatMillisecondsToTimecode_def getTime_def
  num_sub_def floor_div_def js_rem_def num_toString_def padStart_def show_nat.simps
  digit_char_def smod_int_alt_def Let_def

lemma timecode_srt_1_2_3_456:
  "formatTimecodeSRT (Some (z + 3723456)) (Some z) = ''01:02:03,456''"
  by (simp add: timecode_eval)

lemma timecode_vtt_1_2_3_456:
  "formatTimecodeVTT (Some (z + 3723456)) (Some z) = ''01:02:03.456''"
  by (simp add: timecode_eval)

lemma webvtt_fold_prefix:
  "prefix out (foldl
           (\<lambda>output (index, entry).
              output @ show_nat (index + 1) @ newline
                 @ formatTimecodeVTT (startTime entry) zero @ '' --> ''
                 @ formatTimecodeVTT (endTime entry) zero @ newline
                 @ entry_text entry @ newline @ newline)
           out xs)"
proof (induction xs arbitrary: out)
  case Nil
  show ?case by simp
next
  case (Cons x xs)
  obtain i e where x: "x = (i, e)" by (cases x)
  show ?case
    unfolding x foldl_Cons prod.case
    by (rule prefix_order.trans [OF _ Cons.IH]) simp
qed

text \<open>
  C6 fails as stated in its last part: the formatter prints each entry's own start and
  end time relative to the session start and neither reorders nor clamps them.  A final
  entry whose recorded end time (1000) is before its recorded start time (2000), in a
  session that started at 0, is exported as a cue whose end timecode is before its start
  timecode.  (The locale function plays no part in an SRT export; the number printer
  stands in for it.)
\<close>

theorem srt_cue_end_before_start:
  "formatTranscript num_toString
     [\<lparr>entry_text = ''x'', timestamp = Some 2000, startTime = Some 2000, endTime = Some 1000,
       confidence = None, isFinal = True, speaker = None\<rparr>] SRT (Some (Some 0)) 0
   = ''1'' @ newline @ ''00:00:02,000 --> 00:00:01,000'' @ newline @ ''x'' @ newline @ newline
   \<and> the (elapsed_ms (Some 1000) (Some 0)) < the (elapsed_ms (Some 2000) (Some 0))"
  by code_simp

text \<open>
  C6, amended.  For every transcript, the SRT export is the concatenation of one cue per
  final entry, in transcript order, numbered 1, 2, ...: the cue count equals the number of
  final entries.  Each cue prints the entry's start and end time as elapsed milliseconds
  from the zero point, the difference of the two time values as a double.  Where these
  differences are at most \<open>2 ^ 53\<close> in magnitude the subtraction is exact, and the
  cue's end is at or after its start exactly when the entry's recorded end time is at or
  after its recorded start time.
\<close>

theorem srt_export_cues:
  "formatTranscript loc t SRT s now
     = concat (map (srt_cue_text (zero_point t s now)) (srt_cues t))
   \<and> map snd (srt_cues t) = final_entries t
   \<and> map fst (srt_cues t) = [1 ..< Suc (length (final_entries t))]
   \<and> length (srt_cues t) = length (final_entries t)
   \<and> formatTimecodeSRT time zero = formatMillisecondsToTimecode (elapsed_ms time zero) '',''
   \<and> elapsed_ms (Some a) (Some z) = Some (double_round (a - z))
   \<and> (\<bar>a - z\<bar> \<le> 2 ^ 53 \<longrightarrow> elapsed_ms (Some a) (Some z) = Some (a - z))
   \<and> (\<bar>a - z\<bar> \<le> 2 ^ 53 \<and> \<bar>b - z\<bar> \<le> 2 ^ 53 \<longrightarrow>
        (the (elapsed_ms (Some a) (Some z)) \<le> the (elapsed_ms (Some b) (Some z))) = (a \<le> b))"
proof -
  have 1: "formatTranscript loc t SRT s now
             = concat (map (srt_cue_text (zero_point t s now)) (srt_cues t))"
    by (simp add: formatTranscript_def formatAsSRT_cues)
  have 2: "formatTimecodeSRT time zero
             = formatMillisecondsToTimecode (elapsed_ms time zero) '',''"
    by (simp add: formatTimecodeSRT_def elapsed_ms_def)
  have 3: "elapsed_ms (Some a) (Some z) = Some (double_round (a - z))" for a z
    by (simp add: elapsed_ms_def num_sub_def getTime_def)
  have 4: "elapsed_ms (Some a) (Some z) = Some (a - z)" if "\<bar>a - z\<bar> \<le> 2 ^ 53" for a z
    using that by (simp add: 3 double_round_exact)
  have 5: "(the (elapsed_ms (Some a) (Some z)) \<le> the (elapsed_ms (Some b) (Some z))) = (a \<le> b)"
    if "\<bar>a - z\<bar> \<le> 2 ^ 53 \<and> \<bar>b - z\<bar> \<le> 2 ^ 53"
    using that by (simp add: 4)
  from 1 2 3 4 5 srt_cues_numbering [of t] show ?thesis by blast
qed

theorem srt_export_cues_witness:
  "\<bar>(1000::int) - 0\<bar> \<le> 2 ^ 53 \<and> \<bar>(2000::int) - 0\<bar> \<le> 2 ^ 53
   \<and> elapsed_ms (Some 1000) (Some 0) = Some (1000 - 0)
   \<and> (the (elapsed_ms (Some 1000) (Some 0)) \<le> the (elapsed_ms (Some 2000) (Some 0)))
       = ((1000::int) \<le> 2000)"
proof -
  have h1: "\<bar>(1000::int) - 0\<bar> \<le> 2 ^ 53"
    by simp
  have h2: "\<bar>(2000::int) - 0\<bar> \<le> 2 ^ 53"
    by simp
  note T = srt_export_cues [of num_toString "[]" None 0 None None 1000 0 2000]
  from T have a: "\<bar>(1000::int) - 0\<bar> \<le> 2 ^ 53 \<longrightarrow>
      elapsed_ms (Some 1000) (Some 0) = Some (1000 - 0)"
    by (elim conjE)
  from T have b: "\<bar>(1000::int) - 0\<bar> \<le> 2 ^ 53 \<and> \<bar>(2000::int) - 0\<bar> \<le> 2 ^ 53 \<longrightarrow>
      (the (elapsed_ms (Some 1000) (Some 0)) \<le> the (elapsed_ms (Some 2000) (Some 0)))
       = ((1000::int) \<le> 2000)"
    by (elim conjE)
  from a h1 have a': "elapsed_ms (Some 1000) (Some 0) = Some (1000 - 0)"
    by (rule mp)
  from h1 h2 have "\<bar>(1000::int) - 0\<bar> \<le> 2 ^ 53 \<and> \<bar>(2000::int) - 0\<bar> \<le> 2 ^ 53"
    by (rule conjI)
  with b have b': "(the (elapsed_ms (Some 1000) (Some 0)) \<le> the (elapsed_ms (Some 2000) (Some 0)))
       = ((1000::int) \<le> 2000)"
    by (rule mp)
  from h1 h2 a' b' show ?thesis by (intro conjI)
qed

text \<open>
  C7.  A time 3723456 ms (1 h 2 min 3.456 s) after the session start prints as
  \<^verbatim>\<open>01:02:03,456\<close> in SRT and \<^verbatim>\<open>01:02:03.456\<close> in WebVTT, whatever the session
  start; the exports of a final entry that starts then carry these timecodes in their
  cue; and every WebVTT export begins with the line \<^verbatim>\<open>WEBVTT\<close> and a blank line.
\<close>

theorem timecode_rendering:
  "formatTimecodeSRT (Some (z + 3723456)) (Some z) = ''01:02:03,456''
   \<and> formatTimecodeVTT (Some (z + 3723456)) (Some z) = ''01:02:03.456''
   \<and> formatTranscript loc [e\<lparr>startTime := Some (z + 3723456), isFinal := True\<rparr>]
         SRT (Some (Some z)) now
       = ''1'' @ newline @ ''01:02:03,456 --> '' @ formatTimecodeSRT (endTime e) (Some z)
           @ newline @ entry_text e @ newline @ newline
   \<and> formatTranscript loc [e\<lparr>startTime := Some (z + 3723456), isFinal := True\<rparr>]
         WebVTT (Some (Some z)) now
       = ''WEBVTT'' @ newline @ newline
           @ ''1'' @ newline @ ''01:02:03.456 --> '' @ formatTimecodeVTT (endTime e) (Some z)
           @ newline @ entry_text e @ newline @ newline
   \<and> prefix (''WEBVTT'' @ newline @ newline) (formatTranscript loc t WebVTT s now)"
proof -
  have one: "show_nat (Suc 0) = ''1''"
    by (simp add: show_nat.simps digit_char_def)
  have 3: "formatTranscript loc [e\<lparr>startTime := Some (z + 3723456), isFinal := True\<rparr>]
         SRT (Some (Some z)) now
       = ''1'' @ newline @ ''01:02:03,456 --> '' @ formatTimecodeSRT (endTime e) (Some z)
           @ newline @ entry_text e @ newline @ newline"
    by (simp add: formatTranscript_def formatAsSRT_def zero_point_def one
          timecode_srt_1_2_3_456)
  have 4: "formatTranscript loc [e\<lparr>startTime := Some (z + 3723456), isFinal := True\<rparr>]
         WebVTT (Some (Some z)) now
       = ''WEBVTT'' @ newline @ newline
           @ ''1'' @ newline @ ''01:02:03.456 --> '' @ formatTimecodeVTT (endTime e) (Some z)
           @ newline @ entry_text e @ newline @ newline"
    by (simp add: formatTranscript_def formatAsWebVTT_def zero_point_def one
          timecode_vtt_1_2_3_456 enumerate_simps)
  have 5: "prefix (''WEBVTT'' @ newline @ newline) (formatTranscript loc t WebVTT s now)"
    by (simp only: formatTranscript_def format_kind.case formatAsWebVTT_def Let_def
          webvtt_fold_prefix)
  from timecode_srt_1_2_3_456 [of z] timecode_vtt_1_2_3_456 [of z] 3 4 5
  show ?thesis by blast
qed


section \<open>Properties of the recognizer adapter\<close>

lemma onend_unfold:
  "onend s = emit (OnStatusChange ''stopped'') (emit OnEnd (s\<lparr>isListening := False\<rparr>))"
  by (simp add: onend_def emit_def Let_def)

lemma no_restart_clearTimeout:
  "no_restart_after_1000 s \<Longrightarrow> no_restart_after_1000 (clearTimeout h s)"
  by (simp add: no_restart_after_1000_def clearTimeout_def list_all_iff)

lemma no_restart_start:
  "no_restart_after_1000 s \<Longrightarrow> no_restart_after_1000 (fst (start outcome s))"
  by (cases outcome)
     (auto simp: start_def no_restart_after_1000_def clearTimeout_def emit_def list_all_iff
        Let_def split: option.splits)

lemma no_restart_stop:
  "no_restart_after_1000 s \<Longrightarrow> no_restart_after_1000 (stop s)"
  by (auto simp: stop_def no_restart_after_1000_def clearTimeout_def emit_def list_all_iff
        Let_def split: option.splits)

lemma no_restart_step:
  assumes "no_restart_after_1000 s"
  shows "no_restart_after_1000 (service_step ev s)"
proof (cases ev)
  case CallStop
  then show ?thesis using assms by (simp add: no_restart_stop)
next
  case CallAbort
  then show ?thesis using assms
    by (auto simp: abort_def no_restart_after_1000_def clearTimeout_def emit_def list_all_iff
          Let_def split: option.splits)
next
  case (CallSetAutoRestart b)
  then show ?thesis using assms by (simp add: setAutoRestart_def no_restart_after_1000_def)
next
  case (CallSetLanguage l)
  have "no_restart_after_1000 (stop (s\<lparr>lang := l\<rparr>))"
    using assms by (intro no_restart_stop) (simp add: no_restart_after_1000_def)
  then show ?thesis using assms CallSetLanguage
    by (simp add: setLanguage_def setTimeout_def no_restart_after_1000_def Let_def)
next
  case (CallStartMethod outcome)
  then show ?thesis using assms by (simp add: no_restart_start)
next
  case (RecognizerStarted now)
  then show ?thesis using assms by (simp add: onstart_def emit_def no_restart_after_1000_def)
next
  case RecognizerEnded
  then show ?thesis using assms by (simp add: onend_unfold emit_def no_restart_after_1000_def)
next
  case (RecognizerError e)
  then show ?thesis using assms
    by (simp add: onerror_def emit_def setTimeout_def no_restart_after_1000_def Let_def)
next
  case (TimerFired h outcome)
  have c: "no_restart_after_1000 (clearTimeout h s)"
    using assms by (rule no_restart_clearTimeout)
  then have "no_restart_after_1000 ((clearTimeout h s)\<lparr>autoRestart := True\<rparr>)"
    by (simp add: no_restart_after_1000_def)
  with c show ?thesis using assms TimerFired
    by (auto simp: fire_timer_def no_restart_start Let_def split: list.splits timer_action.splits)
qed

lemma no_restart_run:
  "no_restart_after_1000 s \<Longrightarrow> no_restart_after_1000 (service_run evs s)"
  by (induction evs arbitrary: s) (simp_all add: service_run_def no_restart_step)

text \<open>
  C8.  The end handler clears \<^verbatim>\<open>isListening\<close> before it tests
  \<^verbatim>\<open>this.autoRestart && this.isListening\<close>, so the test never succeeds: in every
  state the handler leaves the pending timers and \<^verbatim>\<open>restartTimer\<close> as they were.
  In particular a fresh service (auto-restart enabled, never stopped) whose recognizer
  started and then ended has no restart timer pending; and whatever happens to a fresh
  service, no timer with the delay of 1000 ms is ever pending.
\<close>

theorem onend_schedules_no_restart:
  "timers (onend s) = timers s
   \<and> restartTimer (onend s) = restartTimer s
   \<and> autoRestart (service_run [RecognizerStarted now, RecognizerEnded] (new_service l)) = True
   \<and> timers (service_run [RecognizerStarted now, RecognizerEnded] (new_service l)) = []
   \<and> restartTimer (service_run [RecognizerStarted now, RecognizerEnded] (new_service l)) = None
   \<and> no_restart_after_1000 (service_run evs (new_service l))"
proof -
  have "no_restart_after_1000 (new_service l)"
    by (simp add: no_restart_after_1000_def new_service_def)
  then have "no_restart_after_1000 (service_run evs (new_service l))"
    by (rule no_restart_run)
  then show ?thesis
    by (simp add: onend_unfold service_run_def onstart_def emit_def new_service_def)
qed

section \<open>Properties of the text post-processing\<close>



lemma is_word_i [simp]: "is_word CHR ''i''"
  by (simp add: is_word_def)











lemma processTranscript_example:
  "processTranscript ascii_upper ''  hello   i think i'' = ''Hello I think I''"
  by code_simp



section \<open>Properties of the session store\<close>

lemma importSessions_not_array:
  "\<not> parses_to_array h jsonString \<Longrightarrow> importSessions h jsonString e = (False, e)"
  by (auto simp: importSessions_def parses_to_array_def split: env.splits option.splits jsval.splits)

lemma importSessions_array:
  "JSON_parse h jsonString = Some (JArr xs) \<Longrightarrow>
   importSessions h jsonString (Browser ls)
     = (True, foldl (\<lambda>st session. saveSession h session st) (Browser ls) xs)"
  by (simp add: importSessions_def)

text \<open>
  C4 fails as stated: the elements of the payload are not validated.  On the reference
  host, importing the text \<^verbatim>\<open>[{}]\<close>, whose one element is an empty object and not a
  session, into an empty store reports success and commits the element: the aggregate
  key, absent before, now holds \<^verbatim>\<open>[{}]\<close>, and an item was written under the key
  built from the missing id.
\<close>

theorem import_commits_unvalidated_element:
  "JSON_parse ref_host ''[{}]'' = Some (JArr [JObj []])
   \<and> \<not> session_shaped (JObj [])
   \<and> getItem (Browser Map.empty) STORAGE_KEY = None
   \<and> fst (importSessions ref_host ''[{}]'' (Browser Map.empty)) = True
   \<and> getItem (snd (importSessions ref_host ''[{}]'' (Browser Map.empty))) STORAGE_KEY
       = Some ''[{}]''
   \<and> getItem (snd (importSessions ref_host ''[{}]'' (Browser Map.empty)))
        ''caption_session_undefined'' = Some ''{}''"
  by code_simp

text \<open>
  C4, amended.  \<^verbatim>\<open>importSessions\<close> validates that the payload is JSON text for an
  array, and nothing about the elements.  For every host, text and environment: if the
  text does not parse, or parses to something that is not an array, nothing is committed
  (the environment is returned unchanged) and the result is failure; if it parses to an
  array, in a browser the result is success and every element is handed to
  \<^verbatim>\<open>saveSession\<close> in turn.
\<close>

theorem import_validates_array_only:
  "(\<not> parses_to_array h jsonString \<longrightarrow> importSessions h jsonString e = (False, e))
   \<and> (JSON_parse h jsonString = Some (JArr xs) \<longrightarrow>
        importSessions h jsonString (Browser ls)
          = (True, foldl (\<lambda>st session. saveSession h session st) (Browser ls) xs))"
  using importSessions_not_array importSessions_array by blast

theorem import_validates_array_only_witness:
  "\<not> parses_to_array ref_host ''{}''
   \<and> importSessions ref_host ''{}'' (Browser Map.empty) = (False, Browser Map.empty)
   \<and> JSON_parse ref_host ''[]'' = Some (JArr [])
   \<and> importSessions ref_host ''[]'' (Browser Map.empty) = (True, Browser Map.empty)"
proof -
  have a: "\<not> parses_to_array ref_host ''{}''"
    by code_simp
  have b: "JSON_parse ref_host ''[]'' = Some (JArr [])"
    by code_simp
  from a b
    import_validates_array_only [of ref_host "''{}''" "Browser Map.empty"]
    import_validates_array_only [of ref_host "''[]''" _ "[]" Map.empty]
  show ?thesis by simp
qed



section \<open>The export and import round trip\<close>

lemma toJSON_elements_map:
  "\<forall>x\<in>set xs. x \<noteq> JUndefined \<Longrightarrow> toJSON_elements h xs = map (toJSON h) xs"
  by (induction xs) auto

lemma entry_not_undef [simp]:
  "entry_to_js e \<noteq> JUndefined" "toJSON h (entry_to_js e) \<noteq> JUndefined"
  by (simp_all add: entry_to_js_def)

lemma session_not_undef [simp]:
  "session_to_js s \<noteq> JUndefined" "toJSON h (session_to_js s) \<noteq> JUndefined"
  "JUndefined \<noteq> session_to_js s" "JUndefined \<noteq> toJSON h (session_to_js s)"
  by (simp_all add: session_to_js_def)

lemma toJSON_entry_idem: "toJSON h (toJSON h (entry_to_js e)) = toJSON h (entry_to_js e)"
  by (simp add: entry_to_js_def split: option.splits)

lemma revive_entry_roundtrip:
  assumes "entry_dates_ok h e"
  shows "revive_entry h (toJSON h (entry_to_js e)) = Some (entry_to_js e)"
  using assms
  by (auto simp: entry_dates_ok_def date_roundtrips_def entry_to_js_def revive_entry_def
        set_prop_def split: option.splits)

lemma those_map_Some:
  "(\<And>x. x \<in> set xs \<Longrightarrow> f x = Some (g x)) \<Longrightarrow> those (map f xs) = Some (map g xs)"
  by (induction xs) auto

lemma toJSON_entries:
  "toJSON_elements h (map entry_to_js es) = map (\<lambda>e. toJSON h (entry_to_js e)) es"
  by (induction es) auto

lemma toJSON_entries_idem:
  "toJSON_elements h (map (\<lambda>e. toJSON h (entry_to_js e)) es)
     = map (\<lambda>e. toJSON h (entry_to_js e)) es"
  by (induction es) (auto simp: toJSON_entry_idem)

lemma revive_entries_roundtrip:
  assumes "list_all (entry_dates_ok h) es"
  shows "those (map (revive_entry h) (map (\<lambda>e. toJSON h (entry_to_js e)) es))
           = Some (map entry_to_js es)"
proof -
  have "those (map (\<lambda>e. revive_entry h (toJSON h (entry_to_js e))) es) = Some (map entry_to_js es)"
    by (rule those_map_Some) (use assms in \<open>auto simp: list_all_iff revive_entry_roundtrip\<close>)
  then show ?thesis by (simp add: comp_def)
qed

lemma toJSON_session:
  "toJSON h (session_to_js s) =
     JObj [(''id'', JStr (session_id s)),
           (''name'', JStr (session_name s)),
           (''startTime'', toJSON h (JDate (session_startTime s))),
           (''endTime'', toJSON h (JDate (session_endTime s))),
           (''transcript'', JArr (map (\<lambda>e. toJSON h (entry_to_js e)) (session_transcript s))),
           (''language'', JStr (session_language s))]"
  by (simp add: session_to_js_def toJSON_entries)

lemma toJSON_session_idem:
  "toJSON h (toJSON h (session_to_js s)) = toJSON h (session_to_js s)"
  by (simp add: toJSON_session toJSON_entries_idem split: option.splits)

lemma revive_session_roundtrip:
  assumes "session_dates_ok h s"
  shows "revive_session h (toJSON h (session_to_js s)) = Some (session_to_js s)"
proof -
  obtain a b where ab: "session_startTime s = Some a" "session_endTime s = Some b"
      "Date_parse h (toISOString h a) = Some a" "Date_parse h (toISOString h b) = Some b"
    using assms by (auto simp: session_dates_ok_def date_roundtrips_def split: option.splits)
  have es: "those (map (revive_entry h) (map (\<lambda>e. toJSON h (entry_to_js e)) (session_transcript s)))
           = Some (map entry_to_js (session_transcript s))"
    by (rule revive_entries_roundtrip) (use assms in \<open>auto simp: session_dates_ok_def\<close>)
  show ?thesis
    by (simp add: toJSON_session revive_session_def ab es [unfolded map_map] set_prop_def)
       (simp add: session_to_js_def ab)
qed

lemma get_id_session [simp]:
  "get_prop (session_to_js s) ''id'' = Some (JStr (session_id s))"
  "get_prop (toJSON h (session_to_js s)) ''id'' = Some (JStr (session_id s))"
  by (simp_all add: session_to_js_def)

lemma findIndex_sessions:
  "findIndex (\<lambda>v. strict_eq (case get_prop v ''id'' of Some x \<Rightarrow> x | None \<Rightarrow> JUndefined)
                     (JStr (session_id s))) (map session_to_js cur)
     = findIndex (\<lambda>c. session_id c = session_id s) cur"
  by (induction cur) simp_all

lemma toJSON_sessions:
  "toJSON_elements h (map session_to_js ss) = map (\<lambda>s. toJSON h (session_to_js s)) ss"
  by (induction ss) auto

lemma stringify_JArr:
  "JSON_stringify h indent (JArr xs) = JSON_text h indent (JArr (toJSON_elements h xs))"
  by (simp add: JSON_stringify_def)

lemma stringify_upsert:
  "JSON_stringify h 0
     (JArr (case findIndex (\<lambda>c. session_id c = session_id s) cur of
              Some i \<Rightarrow> (map session_to_js cur)[i := toJSON h (session_to_js s)]
            | None \<Rightarrow> map session_to_js cur @ [toJSON h (session_to_js s)]))
   = JSON_text h 0 (sessions_json h (upsert cur s))"
proof (cases "findIndex (\<lambda>c. session_id c = session_id s) cur")
  case None
  have "toJSON_elements h (map session_to_js cur @ [toJSON h (session_to_js s)])
          = map (toJSON h) (map session_to_js cur @ [toJSON h (session_to_js s)])"
    by (rule toJSON_elements_map) auto
  then show ?thesis
    by (simp add: None stringify_JArr sessions_json_def upsert_def toJSON_session_idem comp_def
          del: toJSON.simps)
next
  case (Some i)
  have "toJSON_elements h ((map session_to_js cur)[i := toJSON h (session_to_js s)])
          = map (toJSON h) ((map session_to_js cur)[i := toJSON h (session_to_js s)])"
    by (rule toJSON_elements_map) (auto dest!: set_update_subset_insert [THEN subsetD])
  then show ?thesis
    by (simp add: Some stringify_JArr sessions_json_def upsert_def toJSON_session_idem
          map_update comp_def del: toJSON.simps)
qed

lemma stringify_sessions:
  "JSON_stringify h indent (JArr (map session_to_js ss)) = JSON_text h indent (sessions_json h ss)"
  by (simp add: JSON_stringify_def toJSON_sessions sessions_json_def)

lemma key_differs: "SESSION_PREFIX @ sid \<noteq> STORAGE_KEY"
  by (simp add: SESSION_PREFIX_def STORAGE_KEY_def)

lemma getAllSessions_of_text:
  assumes "ls STORAGE_KEY = Some (JSON_text h 0 (sessions_json h ss))"
    and "json_roundtrips h 0 ss"
    and "list_all (session_dates_ok h) ss"
  shows "getAllSessions h (Browser ls) = map session_to_js ss"
proof -
  have "those (map (\<lambda>s. revive_session h (toJSON h (session_to_js s))) ss)
          = Some (map session_to_js ss)"
    by (rule those_map_Some) (use assms in \<open>auto simp: list_all_iff revive_session_roundtrip\<close>)
  then have "those (map (revive_session h) (map (\<lambda>s. toJSON h (session_to_js s)) ss))
          = Some (map session_to_js ss)"
    by (simp add: comp_def)
  then show ?thesis
    using assms(1,2) by (simp add: getAllSessions_def sessions_json_def json_roundtrips_def)
qed

lemma saveSession_step:
  assumes "getAllSessions h (Browser ls) = map session_to_js cur"
  shows "\<exists>ls'. saveSession h (toJSON h (session_to_js s)) (Browser ls) = Browser ls'
           \<and> ls' STORAGE_KEY = Some (JSON_text h 0 (sessions_json h (upsert cur s)))"
proof -
  let ?j = "toJSON h (session_to_js s)"
  have idx: "existingIndex (map session_to_js cur) ?j
               = Some (findIndex (\<lambda>c. session_id c = session_id s) cur)"
    by (cases cur) (simp_all add: existingIndex_def findIndex_sessions del: toJSON.simps)
  have sid: "Option.bind (get_prop ?j ''id'') (js_toString h) = Some (session_id s)"
    by simp
  have c: "(case findIndex (\<lambda>c. session_id c = session_id s) cur of
              Some i \<Rightarrow> (map session_to_js cur)[i := ?j]
            | None \<Rightarrow> map session_to_js cur @ [?j])
           = (case findIndex (\<lambda>c. session_id c = session_id s) cur of
              None \<Rightarrow> map session_to_js cur @ [?j]
            | Some i \<Rightarrow> (map session_to_js cur)[i := ?j])"
    by simp
  show ?thesis
    by (simp add: saveSession_def assms idx sid Let_def key_differs key_differs [symmetric]
          stringify_upsert del: toJSON.simps)
qed


lemma dates_ok_upsert:
  assumes "list_all (session_dates_ok h) cur" "session_dates_ok h s"
  shows "list_all (session_dates_ok h) (upsert cur s)"
  using assms
  by (auto simp: upsert_def list_all_iff split: option.splits
        dest!: set_update_subset_insert [THEN subsetD])

lemma in_browser_Browser: "in_browser e \<Longrightarrow> \<exists>ls. e = Browser ls"
  by (cases e) (simp_all add: in_browser_def)

lemma import_fold:
  assumes "in_browser e" "getAllSessions h e = map session_to_js cur"
    and "list_all (session_dates_ok h) cur" "list_all (session_dates_ok h) xs"
    and "\<And>k. k < length xs \<Longrightarrow> json_roundtrips h 0 (foldl upsert cur (take (Suc k) xs))"
  shows "in_browser (foldl (\<lambda>st session. saveSession h session st) e
                       (map (\<lambda>s. toJSON h (session_to_js s)) xs))
       \<and> getAllSessions h (foldl (\<lambda>st session. saveSession h session st) e
                              (map (\<lambda>s. toJSON h (session_to_js s)) xs))
           = map session_to_js (foldl upsert cur xs)"
  using assms
proof (induction xs arbitrary: e cur)
  case Nil
  then show ?case by simp
next
  case (Cons x xs)
  obtain ls where e: "e = Browser ls" using Cons.prems(1) in_browser_Browser by blast
  from saveSession_step [of h ls cur x] Cons.prems(2)
  obtain ls1 where ls1: "saveSession h (toJSON h (session_to_js x)) (Browser ls) = Browser ls1"
      "ls1 STORAGE_KEY = Some (JSON_text h 0 (sessions_json h (upsert cur x)))"
    unfolding e by blast
  have ok1: "list_all (session_dates_ok h) (upsert cur x)"
    using Cons.prems(3,4) by (simp add: dates_ok_upsert)
  have r1: "json_roundtrips h 0 (upsert cur x)"
    using Cons.prems(5) [of 0] by simp
  have g: "getAllSessions h (Browser ls1) = map session_to_js (upsert cur x)"
    by (rule getAllSessions_of_text [where ls = ls1, OF ls1(2) r1 ok1])
  have b: "in_browser (Browser ls1)" by (simp add: in_browser_def)
  have rest: "\<And>k. k < length xs \<Longrightarrow>
                json_roundtrips h 0 (foldl upsert (upsert cur x) (take (Suc k) xs))"
    using Cons.prems(5) by (metis Suc_less_eq foldl_Cons length_Cons take_Suc_Cons)
  have xs_ok: "list_all (session_dates_ok h) xs" using Cons.prems(4) by simp
  from Cons.IH [OF b g ok1 xs_ok rest]
  show ?case by (simp add: e ls1(1) del: toJSON.simps)
qed

lemma findIndex_distinct:
  assumes "distinct (map session_id ss)" "k < length ss"
  shows "findIndex (\<lambda>c. session_id c = session_id (ss ! k)) ss = Some k"
  using assms
proof (induction ss arbitrary: k)
  case Nil
  then show ?case by simp
next
  case (Cons a ss)
  show ?case
  proof (cases k)
    case 0
    then show ?thesis by simp
  next
    case (Suc j)
    then have j: "j < length ss" using Cons.prems by simp
    then have "session_id (ss ! j) \<in> set (map session_id ss)" by simp
    then have "session_id a \<noteq> session_id (ss ! j)"
      using Cons.prems(1) by auto
    then show ?thesis using Cons.IH [of j] Cons.prems j by (simp add: Suc)
  qed
qed

lemma findIndex_None: "\<forall>x\<in>set xs. \<not> P x \<Longrightarrow> findIndex P xs = None"
  by (induction xs) auto

lemma upsert_same:
  assumes "distinct (map session_id ss)" "s \<in> set ss"
  shows "upsert ss s = ss"
proof -
  from assms(2) obtain k where k: "k < length ss" "ss ! k = s"
    by (auto simp: in_set_conv_nth)
  have f: "findIndex (\<lambda>c. session_id c = session_id s) ss = Some k"
    using findIndex_distinct [OF assms(1) k(1)] k(2) by simp
  have "ss[k := s] = ss"
    using k(2) list_update_id [of ss k] by simp
  with f show ?thesis by (simp add: upsert_def)
qed

lemma fold_upsert_same:
  "distinct (map session_id ss) \<Longrightarrow> set xs \<subseteq> set ss \<Longrightarrow> foldl upsert ss xs = ss"
  by (induction xs) (simp_all add: upsert_same)

lemma upsert_fresh:
  assumes "session_id s \<notin> session_id ` set cur"
  shows "upsert cur s = cur @ [s]"
proof -
  have "findIndex (\<lambda>c. session_id c = session_id s) cur = None"
  proof (rule findIndex_None, rule ballI)
    fix x assume "x \<in> set cur"
    then have "session_id x \<in> session_id ` set cur" by (rule imageI)
    with assms show "session_id x \<noteq> session_id s" by metis
  qed
  then show ?thesis by (simp add: upsert_def)
qed

lemma fold_upsert_fresh:
  "distinct (map session_id (cur @ xs)) \<Longrightarrow> foldl upsert cur xs = cur @ xs"
proof (induction xs arbitrary: cur)
  case Nil
  then show ?case by simp
next
  case (Cons x xs)
  have "upsert cur x = cur @ [x]"
    by (rule upsert_fresh) (use Cons.prems in auto)
  moreover have "distinct (map session_id ((cur @ [x]) @ xs))"
    using Cons.prems by simp
  ultimately show ?case using Cons.IH [of "cur @ [x]"] by simp
qed

lemma importSessions_exported:
  assumes "in_browser e1" "json_roundtrips h 2 ss" "getAllSessions h e = map session_to_js ss"
  shows "importSessions h (exportSessions h e) e1
           = (True, foldl (\<lambda>st session. saveSession h session st) e1
                      (map (\<lambda>s. toJSON h (session_to_js s)) ss))"
proof -
  obtain ls1 where e1: "e1 = Browser ls1" using assms(1) in_browser_Browser by blast
  have ex: "exportSessions h e = JSON_text h 2 (sessions_json h ss)"
    by (simp add: exportSessions_def assms(3) stringify_sessions)
  have p: "JSON_parse h (JSON_text h 2 (sessions_json h ss))
             = Some (JArr (map (\<lambda>s. toJSON h (session_to_js s)) ss))"
    using assms(2) by (simp add: json_roundtrips_def sessions_json_def)
  show ?thesis
    by (simp add: importSessions_def ex p e1)
qed



lemma ref_text_array_not_empty: "JSON_text ref_host indent (sessions_json ref_host ss) \<noteq> []"
  by (simp add: ref_host_def ref_JSON_text_def sessions_json_def)

lemma example_dates_ok: "list_all (session_dates_ok ref_host) example_sessions"
  by code_simp

lemma example_parse_indented:
  "JSON_parse ref_host (JSON_text ref_host 2 (sessions_json ref_host example_sessions))
     = Some (sessions_json ref_host example_sessions)"
  by code_simp

lemma example_parse_compact:
  "JSON_parse ref_host (JSON_text ref_host 0 (sessions_json ref_host example_sessions))
     = Some (sessions_json ref_host example_sessions)"
  by code_simp

lemma example_store_sessions:
  "getAllSessions ref_host example_store = map session_to_js example_sessions"
  unfolding example_store_def
  by (rule getAllSessions_of_text)
     (simp_all add: json_roundtrips_def ref_text_array_not_empty example_parse_compact
        example_dates_ok)

lemma date_parse_x: "Date_parse ref_host ''x'' = None"
  by code_simp

lemma date_parse_endTime:
  "Date_parse ref_host ''2023-11-14T22:13:24.000Z'' = Some 1700000004000"
  by code_simp

lemma iso_endTime: "toISOString ref_host 1700000004000 = ''2023-11-14T22:13:24.000Z''"
  by code_simp

lemma undated_text_not_empty: "JSON_text ref_host indent (JArr xs) \<noteq> []"
  by (simp add: ref_host_def ref_JSON_text_def)

lemma undated_parse_record:
  "JSON_parse ref_host (JSON_text ref_host 0 (JArr [undated_record]))
     = Some (JArr [undated_record])"
  by code_simp

lemma undated_parse_indented:
  "JSON_parse ref_host (JSON_text ref_host 2 (sessions_json ref_host [undated_session None]))
     = Some (sessions_json ref_host [undated_session None])"
  by code_simp

lemma undated_parse_compact:
  "JSON_parse ref_host (JSON_text ref_host 0 (sessions_json ref_host [undated_session None]))
     = Some (sessions_json ref_host [undated_session None])"
  by code_simp

lemma undated_store_key:
  "\<exists>ls. undated_store = Browser ls
        \<and> ls STORAGE_KEY = Some (JSON_text ref_host 0 (JArr [undated_record]))"
proof -
  have "undated_store = saveSession ref_host undated_record (Browser Map.empty)"
    by (simp add: undated_store_def importSessions_def undated_parse_record)
  also have "\<dots> = Browser (Map.empty
                 (STORAGE_KEY \<mapsto> JSON_text ref_host 0 (JArr [undated_record]),
                  SESSION_PREFIX @ ''s1'' \<mapsto> JSON_text ref_host 0 undated_record))"
    by (simp add: saveSession_def getAllSessions_def existingIndex_def JSON_stringify_def
          undated_record_def Let_def)
  finally have eq: "undated_store = Browser (Map.empty
                 (STORAGE_KEY \<mapsto> JSON_text ref_host 0 (JArr [undated_record]),
                  SESSION_PREFIX @ ''s1'' \<mapsto> JSON_text ref_host 0 undated_record))" .
  have "(Map.empty
                 (STORAGE_KEY \<mapsto> JSON_text ref_host 0 (JArr [undated_record]),
                  SESSION_PREFIX @ ''s1'' \<mapsto> JSON_text ref_host 0 undated_record))
          STORAGE_KEY = Some (JSON_text ref_host 0 (JArr [undated_record]))"
    by (simp add: key_differs key_differs [symmetric])
  with eq show ?thesis
    by blast
qed

lemma undated_before:
  assumes "ls STORAGE_KEY = Some (JSON_text ref_host 0 (JArr [undated_record]))"
  shows "getAllSessions ref_host (Browser ls) = [session_to_js (undated_session None)]"
  by (simp add: getAllSessions_def assms undated_text_not_empty undated_parse_record)
     (simp add: undated_record_def revive_session_def set_prop_def session_to_js_def
        undated_session_def date_parse_x date_parse_endTime)

lemma undated_after:
  assumes "ls STORAGE_KEY
             = Some (JSON_text ref_host 0 (sessions_json ref_host [undated_session None]))"
  shows "getAllSessions ref_host (Browser ls) = [session_to_js (undated_session (Some 0))]"
  by (simp add: getAllSessions_def assms ref_text_array_not_empty undated_parse_compact)
     (simp add: sessions_json_def revive_session_def set_prop_def session_to_js_def
        undated_session_def iso_endTime date_parse_endTime)

text \<open>
  C5 fails as stated: a stored session need not have valid times.  On the reference host,
  import the text \<^verbatim>\<open>[{"id":"s1","name":"Standup","startTime":"x",\<close>
  \<^verbatim>\<open>"endTime":"2023-11-14T22:13:24.000Z","transcript":[],"language":"en"}]\<close> into an
  empty store.  The store then holds one session, with distinct ids and text that the
  host parses back, whose start time reads as an invalid Date.  The export writes
  \<^verbatim>\<open>null\<close> for that Date, the import of the export succeeds, and the session in the
  store afterwards starts at time 0 (1970-01-01): its content has changed.
\<close>

theorem roundtrip_resets_invalid_startTime:
  "session_shaped undated_record
   \<and> in_browser undated_store
   \<and> getAllSessions ref_host undated_store = [session_to_js (undated_session None)]
   \<and> distinct (map session_id [undated_session None])
   \<and> json_roundtrips ref_host 2 [undated_session None]
   \<and> json_roundtrips ref_host 0 [undated_session None]
   \<and> fst (importSessions ref_host (exportSessions ref_host undated_store) undated_store) = True
   \<and> getAllSessions ref_host
         (snd (importSessions ref_host (exportSessions ref_host undated_store) undated_store))
       = [session_to_js (undated_session (Some 0))]
   \<and> get_prop (session_to_js (undated_session None)) ''startTime'' = Some (JDate None)
   \<and> get_prop (session_to_js (undated_session (Some 0))) ''startTime'' = Some (JDate (Some 0))"
proof -
  obtain ls where ls: "undated_store = Browser ls"
      "ls STORAGE_KEY = Some (JSON_text ref_host 0 (JArr [undated_record]))"
    using undated_store_key by blast
  have shaped: "session_shaped undated_record"
    by (simp add: session_shaped_def has_string_def undated_record_def)
  have br: "in_browser undated_store"
    by (simp add: ls(1) in_browser_def)
  have before: "getAllSessions ref_host undated_store = map session_to_js [undated_session None]"
    by (simp add: ls(1) undated_before [where ls = ls, OF ls(2)])
  have r2: "json_roundtrips ref_host 2 [undated_session None]"
    by (simp add: json_roundtrips_def ref_text_array_not_empty undated_parse_indented)
  have r0: "json_roundtrips ref_host 0 [undated_session None]"
    by (simp add: json_roundtrips_def ref_text_array_not_empty undated_parse_compact)
  have imp: "importSessions ref_host (exportSessions ref_host undated_store) undated_store
               = (True, saveSession ref_host
                          (toJSON ref_host (session_to_js (undated_session None)))
                          (Browser ls))"
    using importSessions_exported [OF br r2 before] by (simp add: ls(1) del: toJSON.simps)
  have cur: "getAllSessions ref_host (Browser ls) = map session_to_js [undated_session None]"
    using before by (simp add: ls(1))
  from saveSession_step [OF cur, of "undated_session None"]
  obtain ls' where ls':
      "saveSession ref_host (toJSON ref_host (session_to_js (undated_session None))) (Browser ls)
         = Browser ls'"
      "ls' STORAGE_KEY
         = Some (JSON_text ref_host 0
                   (sessions_json ref_host (upsert [undated_session None] (undated_session None))))"
    by blast
  have up: "upsert [undated_session None] (undated_session None) = [undated_session None]"
    by (simp add: upsert_def)
  have after: "getAllSessions ref_host (Browser ls') = [session_to_js (undated_session (Some 0))]"
    by (rule undated_after [where ls = ls']) (simp add: ls'(2) up)
  have p1: "get_prop (session_to_js (undated_session None)) ''startTime'' = Some (JDate None)"
    by (simp add: session_to_js_def undated_session_def)
  have p2: "get_prop (session_to_js (undated_session (Some 0))) ''startTime''
              = Some (JDate (Some 0))"
    by (simp add: session_to_js_def undated_session_def)
  have i1: "fst (importSessions ref_host (exportSessions ref_host undated_store) undated_store)
              = True"
    by (simp add: imp)
  have i2: "getAllSessions ref_host
         (snd (importSessions ref_host (exportSessions ref_host undated_store) undated_store))
       = [session_to_js (undated_session (Some 0))]"
    by (simp add: imp ls'(1) after del: toJSON.simps)
  have d: "distinct (map session_id [undated_session None])"
    by simp
  from shaped br before r2 r0 i1 i2 p1 p2 d show ?thesis
    by simp
qed

text \<open>
  C5, amended.  In a browser, let the store hold the sessions \<open>ss\<close>: sessions with
  distinct ids whose time fields, and those of their entries, are valid dates, on a host
  that reads the ISO string of each of these times back to the same time and parses the
  JSON text it writes for these sessions back to the value it serialized.  Then
  importing the output of \<^verbatim>\<open>exportSessions\<close> succeeds and the store holds the same
  sessions afterwards, in the same order, with the same content (so the same ids and the
  same transcripts, entry for entry); this holds when the import goes into the same
  store, and when it goes into a store that holds no session.
\<close>

theorem export_import_roundtrip:
  assumes "in_browser e" and "getAllSessions h e = map session_to_js ss"
    and "distinct (map session_id ss)"
    and "list_all (session_dates_ok h) ss"
    and "json_roundtrips h 2 ss"
    and "list_all (\<lambda>k. json_roundtrips h 0 (take k ss)) [1 ..< Suc (length ss)]"
    and "in_browser e0" and "getAllSessions h e0 = []"
  shows "fst (importSessions h (exportSessions h e) e) = True
       \<and> getAllSessions h (snd (importSessions h (exportSessions h e) e)) = map session_to_js ss
       \<and> fst (importSessions h (exportSessions h e) e0) = True
       \<and> getAllSessions h (snd (importSessions h (exportSessions h e) e0)) = map session_to_js ss"
proof -
  have law: "json_roundtrips h 0 (take k ss)" if "1 \<le> k" "k \<le> length ss" for k
    using assms(6) that by (cases "k = length ss") (auto simp: list_all_iff)
  have same: "json_roundtrips h 0 (foldl upsert ss (take (Suc k) ss))" if "k < length ss" for k
  proof -
    have "foldl upsert ss (take (Suc k) ss) = ss"
      by (rule fold_upsert_same [OF assms(3)]) (rule set_take_subset)
    moreover have "json_roundtrips h 0 (take (length ss) ss)"
      using that by (intro law) simp_all
    ultimately show ?thesis by simp
  qed
  have fresh: "json_roundtrips h 0 (foldl upsert [] (take (Suc k) ss))" if "k < length ss" for k
  proof -
    have "distinct (map session_id (take (Suc k) ss))"
      using assms(3) by (simp add: distinct_take take_map [symmetric])
    then have "foldl upsert [] (take (Suc k) ss) = take (Suc k) ss"
      using fold_upsert_fresh [of "[]" "take (Suc k) ss"] by simp
    moreover have "json_roundtrips h 0 (take (Suc k) ss)"
      using that by (intro law) simp_all
    ultimately show ?thesis by simp
  qed
  have a: "getAllSessions h (foldl (\<lambda>st session. saveSession h session st) e
                              (map (\<lambda>s. toJSON h (session_to_js s)) ss))
           = map session_to_js (foldl upsert ss ss)"
    using import_fold [OF assms(1,2,4,4) same] by blast
  have e0: "getAllSessions h e0 = map session_to_js []" using assms(8) by simp
  have b: "getAllSessions h (foldl (\<lambda>st session. saveSession h session st) e0
                              (map (\<lambda>s. toJSON h (session_to_js s)) ss))
           = map session_to_js (foldl upsert [] ss)"
    using import_fold [OF assms(7) e0 _ assms(4) fresh] by simp
  have s1: "foldl upsert ss ss = ss"
    by (rule fold_upsert_same [OF assms(3)]) simp
  have s2: "foldl upsert [] ss = ss"
    using fold_upsert_fresh [of "[]" ss] assms(3) by simp
  show ?thesis
    by (simp add: importSessions_exported [OF assms(1,5,2)]
          importSessions_exported [OF assms(7,5,2)] a b s1 s2)
qed


theorem export_import_roundtrip_witness:
  "in_browser example_store
   \<and> getAllSessions ref_host example_store = map session_to_js example_sessions
   \<and> distinct (map session_id example_sessions)
   \<and> list_all (session_dates_ok ref_host) example_sessions
   \<and> json_roundtrips ref_host 2 example_sessions
   \<and> list_all (\<lambda>k. json_roundtrips ref_host 0 (take k example_sessions))
         [1 ..< Suc (length example_sessions)]
   \<and> in_browser (Browser Map.empty)
   \<and> getAllSessions ref_host (Browser Map.empty) = []
   \<and> fst (importSessions ref_host (exportSessions ref_host example_store) example_store) = True
   \<and> getAllSessions ref_host
         (snd (importSessions ref_host (exportSessions ref_host example_store) example_store))
       = map session_to_js example_sessions
   \<and> fst (importSessions ref_host (exportSessions ref_host example_store) (Browser Map.empty))
       = True
   \<and> getAllSessions ref_host
         (snd (importSessions ref_host (exportSessions ref_host example_store)
                 (Browser Map.empty)))
       = map session_to_js example_sessions"
proof -
  have 1: "in_browser example_store"
    by (simp add: example_store_def in_browser_def)
  have 3: "distinct (map session_id example_sessions)"
    by (simp add: example_sessions_def)
  have 5: "json_roundtrips ref_host 2 example_sessions"
    by (simp add: json_roundtrips_def ref_text_array_not_empty example_parse_indented)
  have len: "length example_sessions = 1"
    by (simp add: example_sessions_def)
  have tk: "take 1 example_sessions = example_sessions"
    by (simp add: example_sessions_def)
  have 6: "list_all (\<lambda>k. json_roundtrips ref_host 0 (take k example_sessions))
             [1 ..< Suc (length example_sessions)]"
    by (simp add: len tk json_roundtrips_def ref_text_array_not_empty example_parse_compact)
  have 7: "in_browser (Browser Map.empty)"
    by (simp add: in_browser_def)
  have 8: "getAllSessions ref_host (Browser Map.empty) = []"
    by (simp add: getAllSessions_def)
  from export_import_roundtrip [OF 1 example_store_sessions 3 example_dates_ok 5 6 7 8]
    1 example_store_sessions 3 example_dates_ok 5 6 7 8
  show ?thesis by blast
qed

end
